theory Spec2Isabelle
  imports Main "HOL-Library.Countable"
begin

section \<open>Values and errors of the Python program\<close>

text \<open>
  The module \<^verbatim>\<open>sui_types.py\<close> turns JSON-like nested mappings into typed objects.
  A JSON value is a tree; a Python \<^verbatim>\<open>dict\<close> keeps its keys in insertion order and holds
  every key once, so it is an association list whose keys are distinct. Strings are lists
  of characters; numbers are never inspected by the module and are carried as integers.
\<close>

datatype json =
    JNull
  | JBool bool
  | JNum int
  | JStr string
  | JList "json list"
  | JDict "(string \<times> json) list"

type_synonym dict = "(string \<times> json) list"

text \<open>
  The exceptions the module's statements can raise: a missing key (with the key), an index
  out of range, subscripting or item assignment on a value that does not support it, and a
  method (\<^verbatim>\<open>split\<close>, \<^verbatim>\<open>items\<close>) missing on a value of the wrong type.
\<close>

datatype error =
    KeyError string
  | IndexError
  | TypeError
  | AttributeError

definition ebind :: "error + 'a \<Rightarrow> ('a \<Rightarrow> error + 'b) \<Rightarrow> error + 'b" where
  "ebind m f = (case m of Inl e \<Rightarrow> Inl e | Inr x \<Rightarrow> f x)"

subsection \<open>Dictionaries\<close>

text \<open>\<^verbatim>\<open>d[k]\<close> on a dict: the value of the key, or \<^verbatim>\<open>KeyError(k)\<close>.\<close>

fun dict_get :: "dict \<Rightarrow> string \<Rightarrow> error + json" where
  "dict_get [] k = Inl (KeyError k)"
| "dict_get ((k', v) # d) k = (if k' = k then Inr v else dict_get d k)"

text \<open>
  \<^verbatim>\<open>d[k] = v\<close> on a dict: an existing key keeps its place and takes the new value, a new
  key goes to the end.
\<close>

fun dict_set :: "dict \<Rightarrow> string \<Rightarrow> json \<Rightarrow> dict" where
  "dict_set [] k v = [(k, v)]"
| "dict_set ((k', v') # d) k v = (if k' = k then (k, v) # d else (k', v') # dict_set d k v)"

text \<open>
  \<^verbatim>\<open>x[k]\<close> with a string key on any JSON value: only a dict can be subscripted by a
  string; a list, a string, a number, a boolean and \<^verbatim>\<open>None\<close> raise \<^verbatim>\<open>TypeError\<close>.
\<close>

fun getitem :: "json \<Rightarrow> string \<Rightarrow> error + json" where
  "getitem (JDict d) k = dict_get d k"
| "getitem _ k = Inl TypeError"

text \<open>\<^verbatim>\<open>x[k] = v\<close> with a string key on any JSON value.\<close>

fun setitem :: "json \<Rightarrow> string \<Rightarrow> json \<Rightarrow> error + json" where
  "setitem (JDict d) k v = Inr (JDict (dict_set d k v))"
| "setitem _ k v = Inl TypeError"

text \<open>The keys of a dict are distinct, at every depth.\<close>

fun wf_json :: "json \<Rightarrow> bool" where
  "wf_json (JList xs) = list_all wf_json xs"
| "wf_json (JDict d) = (distinct (map fst d) \<and> list_all (\<lambda>p. wf_json (snd p)) d)"
| "wf_json _ = True"

subsection \<open>Strings\<close>

text \<open>
  \<^verbatim>\<open>s.find(sep)\<close> as the pair of the text before the first occurrence of \<^verbatim>\<open>sep\<close> and the
  text after it.
\<close>

fun find_sep :: "string \<Rightarrow> string \<Rightarrow> (string \<times> string) option" where
  "find_sep sep [] = (if sep = [] then Some ([], []) else None)"
| "find_sep sep (c # cs) =
     (if take (length sep) (c # cs) = sep then Some ([], drop (length sep) (c # cs))
      else (case find_sep sep cs of None \<Rightarrow> None | Some (a, b) \<Rightarrow> Some (c # a, b)))"

text \<open>
  \<^verbatim>\<open>s.split(sep, maxsplit)\<close> for a non-negative \<^verbatim>\<open>maxsplit\<close>: the leftmost occurrences
  of the separator cut the string, at most \<^verbatim>\<open>maxsplit\<close> times; the rest is the last piece.
\<close>

fun split_max :: "string \<Rightarrow> nat \<Rightarrow> string \<Rightarrow> string list" where
  "split_max sep 0 s = [s]"
| "split_max sep (Suc n) s =
     (case find_sep sep s of None \<Rightarrow> [s] | Some (a, b) \<Rightarrow> a # split_max sep n b)"

text \<open>
  \<^verbatim>\<open>s.split(sep)\<close> without a limit. A string of length \<open>n\<close> holds at most \<open>n\<close>
  occurrences of a non-empty separator, so the limit \<open>length s\<close> is never reached.
\<close>

definition split_all :: "string \<Rightarrow> string \<Rightarrow> string list" where
  "split_all sep s = split_max sep (length s) s"

text \<open>The slice \<^verbatim>\<open>s[5:-1]\<close>: from index 5 up to, not including, the last character.\<close>

definition slice_5_m1 :: "string \<Rightarrow> string" where
  "slice_5_m1 s = drop 5 (take (length s - 1) s)"

text \<open>\<^verbatim>\<open>xs[i]\<close> on a list, for a non-negative index.\<close>

definition index :: "'a list \<Rightarrow> nat \<Rightarrow> error + 'a" where
  "index xs i = (if i < length xs then Inr (xs ! i) else Inl IndexError)"

text \<open>
  \<^verbatim>\<open>x.split("::", 2)\<close> on any JSON value: only a string has the method.
\<close>

fun json_split2 :: "json \<Rightarrow> error + string list" where
  "json_split2 (JStr s) = Inr (split_max ''::'' 2 s)"
| "json_split2 _ = Inl AttributeError"

section \<open>Descriptors\<close>

text \<open>
  Modelled from the spec: the base classes of the package \<^verbatim>\<open>abstracts\<close> are not part of
  the source file. By the spec an identifier wraps the raw value and exposes it unchanged, and
  a descriptor or object holds the identifier it was built with; \<^verbatim>\<open>ObjectID(value)\<close> is
  therefore the value itself, kept in the field \<open>identifier\<close>.

  The five descriptor classes add no field and no method to \<^verbatim>\<open>ObjectInfo\<close>: they share
  its constructor and differ in the class of the instance only.
\<close>

datatype descriptor_class =
    ObjectInfo
  | SuiDataDescriptor
  | SuiNftDescriptor
  | SuiCoinDescriptor
  | SuiNativeCoinDescriptor

record object_info =
  info_class :: descriptor_class
  info_identifier :: json
  info_type_raw :: dict
  info_version :: json
  info_digest :: json
  info_owner :: json
  info_previous_transaction :: json
  info_type_signature :: json

text \<open>
  \<^verbatim>\<open>ObjectInfo.__init__\<close>, run for an instance of class \<open>cls\<close>: the keys are read in the
  order of the source and the first failing read raises.
\<close>

definition ObjectInfo_init :: "descriptor_class \<Rightarrow> dict \<Rightarrow> error + object_info" where
  "ObjectInfo_init cls indata =
     ebind (dict_get indata ''objectId'') (\<lambda>oid.
     ebind (dict_get indata ''version'') (\<lambda>ver.
     ebind (dict_get indata ''digest'') (\<lambda>dig.
     ebind (dict_get indata ''owner'') (\<lambda>own.
     ebind (getitem own ''AddressOwner'') (\<lambda>addr.
     ebind (dict_get indata ''previousTransaction'') (\<lambda>prev.
     ebind (dict_get indata ''type'') (\<lambda>ty.
       Inr \<lparr> info_class = cls, info_identifier = oid, info_type_raw = indata,
             info_version = ver, info_digest = dig, info_owner = addr,
             info_previous_transaction = prev, info_type_signature = ty \<rparr>)))))))"

text \<open>
  \<^verbatim>\<open>from_object_descriptor\<close>: \<open>descriptor_of\<close> is what the body returns or raises. A
  \<^verbatim>\<open>match\<close> without a matching case, and the \<^verbatim>\<open>devnet_nft\<close> case whose test fails,
  fall through to the last \<^verbatim>\<open>return\<close>. The body only reads its argument, which
  \<open>from_object_descriptor\<close> returns with the result as the state of the caller's mapping
  after the call.
\<close>

definition descriptor_of :: "dict \<Rightarrow> error + object_info" where
  "descriptor_of indata =
     ebind (dict_get indata ''type'') (\<lambda>ty.
     ebind (json_split2 ty) (\<lambda>split.
     ebind (index split 0) (\<lambda>s0.
       if s0 = ''0x2'' then
         ebind (index split 1) (\<lambda>s1.
           if s1 = ''coin'' then
             ebind (index split 2) (\<lambda>s2.
             ebind (index (split_all ''::'' (slice_5_m1 s2)) 2) (\<lambda>inner.
               if inner = ''SUI'' then ObjectInfo_init SuiNativeCoinDescriptor indata
               else ObjectInfo_init SuiCoinDescriptor indata))
           else if s1 = ''devnet_nft'' then
             ebind (index split 2) (\<lambda>s2.
               if s2 = ''DevNetNFT'' then ObjectInfo_init SuiNftDescriptor indata
               else ObjectInfo_init ObjectInfo indata)
           else ObjectInfo_init ObjectInfo indata)
       else if length split = 3 then ObjectInfo_init SuiDataDescriptor indata
       else ObjectInfo_init ObjectInfo indata)))"

definition from_object_descriptor :: "dict \<Rightarrow> (error + object_info) \<times> dict" where
  "from_object_descriptor indata = (descriptor_of indata, indata)"

text \<open>\<^verbatim>\<open>SuiRawDescriptor.json\<close>, with \<^verbatim>\<open>json.dumps\<close> of the standard library as a parameter.\<close>

definition descriptor_json :: "(json \<Rightarrow> string) \<Rightarrow> object_info \<Rightarrow> string" where
  "descriptor_json dumps d = dumps (JDict (info_type_raw d))"

section \<open>Objects\<close>

text \<open>
  The fields set by \<^verbatim>\<open>ObjectRead.__init__\<close>. There is no version and no digest among
  them: the object holds its descriptor and asks it.
\<close>

record object_read =
  read_identifier :: json
  read_type_raw :: json
  read_type_signature :: json
  read_data_type :: json
  read_has_public_transfer :: json
  read_descriptor :: object_info
  read_previous_transaction :: json
  read_storage_rebate :: json

text \<open>
  The object classes. \<^verbatim>\<open>SuiNftType\<close> adds description, name and url,
  \<^verbatim>\<open>SuiDataType\<close> adds the data definition, the field data and the list of children,
  \<^verbatim>\<open>SuiGasType\<close> adds the balance.
\<close>

datatype sui_object =
    is_ObjectRead: ObjectRead object_read
  | is_SuiNftType: SuiNftType object_read json json json
  | is_SuiDataType: SuiDataType object_read "(string \<times> string) list" dict "sui_object list"
  | is_SuiCoinType: SuiCoinType object_read
  | is_SuiGasType: SuiGasType object_read json

fun base :: "sui_object \<Rightarrow> object_read" where
  "base (ObjectRead b) = b"
| "base (SuiNftType b _ _ _) = b"
| "base (SuiDataType b _ _ _) = b"
| "base (SuiCoinType b) = b"
| "base (SuiGasType b _) = b"

definition object_identifier :: "sui_object \<Rightarrow> json" where
  "object_identifier obj = read_identifier (base obj)"

definition descriptor :: "sui_object \<Rightarrow> object_info" where
  "descriptor obj = read_descriptor (base obj)"

text \<open>The properties \<^verbatim>\<open>ObjectRead.version\<close> and \<^verbatim>\<open>ObjectRead.digest\<close>.\<close>

definition version :: "sui_object \<Rightarrow> json" where
  "version obj = info_version (read_descriptor (base obj))"

definition digest :: "sui_object \<Rightarrow> json" where
  "digest obj = info_digest (read_descriptor (base obj))"

text \<open>\<^verbatim>\<open>SuiRawObject.json\<close>, with \<^verbatim>\<open>json.dumps\<close> as a parameter.\<close>

definition object_json :: "(json \<Rightarrow> string) \<Rightarrow> sui_object \<Rightarrow> string" where
  "object_json dumps obj = dumps (read_type_raw (base obj))"

text \<open>\<^verbatim>\<open>ObjectRead.__init__\<close>.\<close>

definition ObjectRead_init :: "json \<Rightarrow> object_info \<Rightarrow> error + object_read" where
  "ObjectRead_init indata descr =
     ebind (getitem indata ''fields'') (\<lambda>fields.
     ebind (getitem fields ''id'') (\<lambda>uid.
     ebind (getitem uid ''id'') (\<lambda>oid.
     ebind (getitem indata ''type'') (\<lambda>ty.
     ebind (getitem indata ''dataType'') (\<lambda>dt.
     ebind (getitem indata ''has_public_transfer'') (\<lambda>hpt.
     ebind (getitem indata ''previousTransaction'') (\<lambda>prev.
     ebind (getitem indata ''storageRebate'') (\<lambda>reb.
       Inr \<lparr> read_identifier = oid, read_type_raw = indata, read_type_signature = ty,
             read_data_type = dt, read_has_public_transfer = hpt, read_descriptor = descr,
             read_previous_transaction = prev, read_storage_rebate = reb \<rparr>))))))))"

text \<open>\<^verbatim>\<open>SuiNftType.__init__\<close>.\<close>

definition SuiNftType_init :: "json \<Rightarrow> object_info \<Rightarrow> error + sui_object" where
  "SuiNftType_init indata descr =
     ebind (ObjectRead_init indata descr) (\<lambda>b.
     ebind (getitem indata ''fields'') (\<lambda>fields.
     ebind (getitem fields ''description'') (\<lambda>description.
     ebind (getitem fields ''name'') (\<lambda>name.
     ebind (getitem fields ''url'') (\<lambda>url.
       Inr (SuiNftType b description name url))))))"

text \<open>
  The loop of \<^verbatim>\<open>SuiDataType.__init__\<close> over \<^verbatim>\<open>indata["fields"].items()\<close>: every item
  whose key is not \<^verbatim>\<open>id\<close> is stored into the data mapping.
\<close>

fun copy_fields :: "dict \<Rightarrow> dict \<Rightarrow> dict" where
  "copy_fields [] data = data"
| "copy_fields ((key, val) # items) data =
     copy_fields items (if \<not> key = ''id'' then dict_set data key val else data)"

text \<open>\<^verbatim>\<open>x.items()\<close>: only a dict has the method.\<close>

fun json_items :: "json \<Rightarrow> error + dict" where
  "json_items (JDict d) = Inr d"
| "json_items _ = Inl AttributeError"

text \<open>\<^verbatim>\<open>SuiDataType.__init__\<close>.\<close>

definition SuiDataType_init :: "json \<Rightarrow> object_info \<Rightarrow> error + sui_object" where
  "SuiDataType_init indata descr =
     ebind (ObjectRead_init indata descr) (\<lambda>b.
     ebind (json_split2 (read_type_signature b)) (\<lambda>split.
     ebind (getitem indata ''fields'') (\<lambda>fields.
     ebind (json_items fields) (\<lambda>items.
       Inr (SuiDataType b (zip [''package'', ''module'', ''structure''] split)
              (copy_fields items []) [])))))"

text \<open>\<^verbatim>\<open>SuiGasType.__init__\<close>.\<close>

definition SuiGasType_init :: "json \<Rightarrow> object_info \<Rightarrow> error + sui_object" where
  "SuiGasType_init indata descr =
     ebind (ObjectRead_init indata descr) (\<lambda>b.
     ebind (getitem indata ''fields'') (\<lambda>fields.
     ebind (getitem fields ''balance'') (\<lambda>balance.
       Inr (SuiGasType b balance))))"

text \<open>
  The properties of \<^verbatim>\<open>SuiDataType\<close>. They are defined for that class only; in the model
  the other classes answer \<^verbatim>\<open>AttributeError\<close>. \<^verbatim>\<open>package\<close>, \<^verbatim>\<open>module\<close> and
  \<^verbatim>\<open>structure\<close> subscript the data definition.
\<close>

fun data_definition :: "sui_object \<Rightarrow> error + (string \<times> string) list" where
  "data_definition (SuiDataType _ dd _ _) = Inr dd"
| "data_definition _ = Inl AttributeError"

fun definition_get :: "(string \<times> string) list \<Rightarrow> string \<Rightarrow> error + string" where
  "definition_get [] k = Inl (KeyError k)"
| "definition_get ((k', v) # d) k = (if k' = k then Inr v else definition_get d k)"

definition package :: "sui_object \<Rightarrow> error + string" where
  "package obj = ebind (data_definition obj) (\<lambda>dd. definition_get dd ''package'')"

definition module :: "sui_object \<Rightarrow> error + string" where
  "module obj = ebind (data_definition obj) (\<lambda>dd. definition_get dd ''module'')"

definition structure_id :: "sui_object \<Rightarrow> error + string" where
  "structure_id obj = ebind (data_definition obj) (\<lambda>dd. definition_get dd ''structure'')"

fun data :: "sui_object \<Rightarrow> error + dict" where
  "data (SuiDataType _ _ dat _) = Inr dat"
| "data _ = Inl AttributeError"

fun children :: "sui_object \<Rightarrow> error + sui_object list" where
  "children (SuiDataType _ _ _ cs) = Inr cs"
| "children _ = Inl AttributeError"

text \<open>\<^verbatim>\<open>SuiDataType.add_child\<close>: the child goes to the end of the list of children.\<close>

fun add_child :: "sui_object \<Rightarrow> sui_object \<Rightarrow> error + sui_object" where
  "add_child (SuiDataType b dd dat cs) child = Inr (SuiDataType b dd dat (cs @ [child]))"
| "add_child _ child = Inl AttributeError"

text \<open>A sequence of \<^verbatim>\<open>add_child\<close> calls on one object.\<close>

fun add_children :: "sui_object \<Rightarrow> sui_object list \<Rightarrow> error + sui_object" where
  "add_children obj [] = Inr obj"
| "add_children obj (c # cs) = ebind (add_child obj c) (\<lambda>obj'. add_children obj' cs)"

text \<open>
  The classification of \<^verbatim>\<open>from_object_type\<close>, from the statement that splits the type
  signature to the end, on the data mapping \<open>indata\<close>.
\<close>

definition object_of :: "object_info \<Rightarrow> json \<Rightarrow> error + sui_object" where
  "object_of descr indata =
     ebind (getitem indata ''type'') (\<lambda>ty.
     ebind (json_split2 ty) (\<lambda>split.
     ebind (index split 0) (\<lambda>s0.
       if s0 = ''0x2'' then
         ebind (index split 1) (\<lambda>s1.
           if s1 = ''coin'' then
             ebind (index split 2) (\<lambda>s2.
             ebind (index (split_all ''::'' (slice_5_m1 s2)) 2) (\<lambda>inner.
               if inner = ''SUI'' then SuiGasType_init indata descr
               else ebind (ObjectRead_init indata descr) (\<lambda>b. Inr (SuiCoinType b))))
           else if s1 = ''devnet_nft'' then
             ebind (index split 2) (\<lambda>s2.
               if s2 = ''DevNetNFT'' then SuiNftType_init indata descr
               else ebind (ObjectRead_init indata descr) (\<lambda>b. Inr (ObjectRead b)))
           else ebind (ObjectRead_init indata descr) (\<lambda>b. Inr (ObjectRead b)))
       else if length split = 3 then SuiDataType_init indata descr
       else ebind (ObjectRead_init indata descr) (\<lambda>b. Inr (ObjectRead b)))))"

text \<open>
  \<^verbatim>\<open>from_object_type\<close>. The first three statements read the caller's block and store two
  keys into its \<^verbatim>\<open>data\<close> mapping, which is the same Python object as \<^verbatim>\<open>indata\<close>; so
  the function returns, with its result, the caller's block as it is after the call. The
  right-hand side of an assignment is evaluated before the store.
\<close>

definition from_object_type :: "object_info \<Rightarrow> dict \<Rightarrow> (error + sui_object) \<times> dict" where
  "from_object_type descr inblock =
     (case dict_get inblock ''data'' of
        Inl e \<Rightarrow> (Inl e, inblock)
      | Inr indata0 \<Rightarrow>
     (case dict_get inblock ''previousTransaction'' of
        Inl e \<Rightarrow> (Inl e, inblock)
      | Inr prev \<Rightarrow>
     (case setitem indata0 ''previousTransaction'' prev of
        Inl e \<Rightarrow> (Inl e, inblock)
      | Inr indata1 \<Rightarrow>
     (let inblock1 = dict_set inblock ''data'' indata1 in
     (case dict_get inblock1 ''storageRebate'' of
        Inl e \<Rightarrow> (Inl e, inblock1)
      | Inr reb \<Rightarrow>
     (case setitem indata1 ''storageRebate'' reb of
        Inl e \<Rightarrow> (Inl e, inblock1)
      | Inr indata2 \<Rightarrow>
     (let inblock2 = dict_set inblock1 ''data'' indata2 in
        (object_of descr indata2, inblock2))))))))"

section \<open>Auxiliary notions for the statements\<close>

text \<open>The value found by following a path of keys, \<^verbatim>\<open>x[k1][k2]...\<close>.\<close>

fun getpath :: "json \<Rightarrow> string list \<Rightarrow> error + json" where
  "getpath x [] = Inr x"
| "getpath x (k # ks) = ebind (getitem x k) (\<lambda>y. getpath y ks)"

definition present :: "json \<Rightarrow> string list \<Rightarrow> bool" where
  "present x path = (\<not> isl (getpath x path))"

text \<open>
  The input contracts of the two classifiers: a descriptor mapping holds
  \<^verbatim>\<open>objectId\<close>, \<^verbatim>\<open>version\<close>, \<^verbatim>\<open>digest\<close>, \<^verbatim>\<open>owner.AddressOwner\<close>,
  \<^verbatim>\<open>previousTransaction\<close> and \<^verbatim>\<open>type\<close>; a content block holds
  \<^verbatim>\<open>previousTransaction\<close>, \<^verbatim>\<open>storageRebate\<close> and a \<^verbatim>\<open>data\<close> mapping with
  \<^verbatim>\<open>type\<close>, \<^verbatim>\<open>dataType\<close>, \<^verbatim>\<open>has_public_transfer\<close> and \<^verbatim>\<open>fields.id.id\<close>.
\<close>

definition descriptor_input :: "dict \<Rightarrow> bool" where
  "descriptor_input indata =
     list_all (present (JDict indata))
       [[''objectId''], [''version''], [''digest''], [''owner'', ''AddressOwner''],
        [''previousTransaction''], [''type'']]"

definition object_input :: "dict \<Rightarrow> bool" where
  "object_input inblock =
     list_all (present (JDict inblock))
       [[''data'', ''fields'', ''id'', ''id''], [''data'', ''type''], [''data'', ''dataType''],
        [''data'', ''has_public_transfer''], [''previousTransaction''], [''storageRebate'']]"

text \<open>
  The decision that both classifiers take on the value of \<^verbatim>\<open>type\<close>, apart from the
  constructor called at each \<^verbatim>\<open>return\<close>. The lemmas \<open>descriptor_of_classify\<close> and
  \<open>object_of_classify\<close> show that each classifier is this decision followed by the
  constructor of the chosen class.
\<close>

datatype type_tag = Generic | StructuredData | Nft | Coin | NativeCoin

definition classify :: "json \<Rightarrow> error + type_tag" where
  "classify ty =
     ebind (json_split2 ty) (\<lambda>split.
     ebind (index split 0) (\<lambda>s0.
       if s0 = ''0x2'' then
         ebind (index split 1) (\<lambda>s1.
           if s1 = ''coin'' then
             ebind (index split 2) (\<lambda>s2.
             ebind (index (split_all ''::'' (slice_5_m1 s2)) 2) (\<lambda>inner.
               if inner = ''SUI'' then Inr NativeCoin else Inr Coin))
           else if s1 = ''devnet_nft'' then
             ebind (index split 2) (\<lambda>s2.
               if s2 = ''DevNetNFT'' then Inr Nft else Inr Generic)
           else Inr Generic)
       else if length split = 3 then Inr StructuredData
       else Inr Generic))"

fun descriptor_class_of :: "type_tag \<Rightarrow> descriptor_class" where
  "descriptor_class_of Generic = ObjectInfo"
| "descriptor_class_of StructuredData = SuiDataDescriptor"
| "descriptor_class_of Nft = SuiNftDescriptor"
| "descriptor_class_of Coin = SuiCoinDescriptor"
| "descriptor_class_of NativeCoin = SuiNativeCoinDescriptor"

fun construct :: "type_tag \<Rightarrow> json \<Rightarrow> object_info \<Rightarrow> error + sui_object" where
  "construct Generic indata descr = ebind (ObjectRead_init indata descr) (\<lambda>b. Inr (ObjectRead b))"
| "construct StructuredData indata descr = SuiDataType_init indata descr"
| "construct Nft indata descr = SuiNftType_init indata descr"
| "construct Coin indata descr = ebind (ObjectRead_init indata descr) (\<lambda>b. Inr (SuiCoinType b))"
| "construct NativeCoin indata descr = SuiGasType_init indata descr"

text \<open>The data mapping of a content block after the two stores of \<^verbatim>\<open>from_object_type\<close>.\<close>

definition stored :: "dict \<Rightarrow> json \<Rightarrow> json \<Rightarrow> dict" where
  "stored dat prev reb = dict_set (dict_set dat ''previousTransaction'' prev) ''storageRebate'' reb"

text \<open>
  Sample inputs of the two shapes of the input contract, for a given type signature: a
  descriptor mapping, a content block (whose fields also hold what the NFT and gas classes
  read), and a descriptor as \<^verbatim>\<open>from_object_descriptor\<close> builds it.
\<close>

definition sample_descriptor :: "string \<Rightarrow> dict" where
  "sample_descriptor sig =
     [(''objectId'', JStr ''0xabc''), (''version'', JNum 7), (''digest'', JStr ''dg=''),
      (''owner'', JDict [(''AddressOwner'', JStr ''0x51'')]),
      (''previousTransaction'', JStr ''tx1''), (''type'', JStr sig)]"

definition sample_block :: "string \<Rightarrow> dict" where
  "sample_block sig =
     [(''data'', JDict
        [(''dataType'', JStr ''moveObject''), (''type'', JStr sig),
         (''has_public_transfer'', JBool True),
         (''fields'', JDict
            [(''balance'', JNum 100), (''id'', JDict [(''id'', JStr ''0xdef'')]),
             (''description'', JStr ''d''), (''name'', JStr ''n''), (''url'', JStr ''u'')])]),
      (''previousTransaction'', JStr ''tx2''), (''storageRebate'', JNum 15)]"

definition sample_info :: object_info where
  "sample_info =
     \<lparr> info_class = ObjectInfo, info_identifier = JStr ''0xabc'',
       info_type_raw = sample_descriptor ''0x7::m::S'', info_version = JNum 7,
       info_digest = JStr ''dg='', info_owner = JStr ''0x51'',
       info_previous_transaction = JStr ''tx1'', info_type_signature = JStr ''0x7::m::S'' \<rparr>"

text \<open>
  The signatures on which the classification indexes a list out of range: the package is
  \<^verbatim>\<open>0x2\<close> and the module is missing; or the module is \<^verbatim>\<open>coin\<close> or \<^verbatim>\<open>devnet_nft\<close>
  and the third part is missing; or the module is \<^verbatim>\<open>coin\<close> and the third part, without
  its first five characters and its last one, has fewer than three parts.
\<close>

definition index_failure :: "string \<Rightarrow> bool" where
  "index_failure sig =
     (case split_max ''::'' 2 sig of
        [p] \<Rightarrow> p = ''0x2''
      | [p, m] \<Rightarrow> p = ''0x2'' \<and> (m = ''coin'' \<or> m = ''devnet_nft'')
      | [p, m, r] \<Rightarrow>
          p = ''0x2'' \<and> m = ''coin'' \<and> length (split_all ''::'' (slice_5_m1 r)) < 3
      | _ \<Rightarrow> False)"

text \<open>
  \<^verbatim>\<open>json.dumps\<close> and \<^verbatim>\<open>json.loads\<close> belong to the standard library, not to the module;
  the statements take them as parameters and assume of them only that parsing what was
  serialised gives the value back. JSON values can be enumerated, so there are functions with
  that property: the unary encoding of the number of a value is one.
\<close>

instance json :: countable
  by countable_datatype

definition unary_dumps :: "json \<Rightarrow> string" where
  "unary_dumps v = replicate (to_nat v) (CHR ''1'')"

definition unary_loads :: "string \<Rightarrow> json" where
  "unary_loads s = from_nat (length s)"

section \<open>Basic facts\<close>

subsection \<open>Splitting strings\<close>

text \<open>
  The limit used for the unlimited split is never reached, and a signature written as
  \<open>p::m::n\<close>, with no colon in \<open>p\<close> and \<open>m\<close>, is cut into these three parts.
\<close>

lemma find_sep_length:
  "find_sep sep s = Some (a, b) \<Longrightarrow> length s = length a + length sep + length b"
proof (induction s arbitrary: a)
  case Nil
  then show ?case by (simp split: if_splits)
next
  case (Cons c cs)
  show ?case
  proof (cases "take (length sep) (c # cs) = sep")
    case True
    have "length sep \<le> length (c # cs)"
      using arg_cong [OF True, of length] by simp
    with Cons.prems True show ?thesis by auto
  next
    case False
    with Cons.prems obtain a' where "find_sep sep cs = Some (a', b)" "a = c # a'"
      by (auto split: option.splits)
    with Cons.IH [of a'] show ?thesis by simp
  qed
qed

lemma split_max_enough:
  assumes "sep \<noteq> []" and "length s \<le> n" and "length s \<le> m"
  shows "split_max sep n s = split_max sep m s"
  using assms(2,3)
proof (induction n arbitrary: s m)
  case 0
  then show ?case using assms(1) by (cases m) simp_all
next
  case (Suc n)
  show ?case
  proof (cases m)
    case 0
    with Suc.prems show ?thesis using assms(1) by simp
  next
    case m: (Suc m')
    show ?thesis
    proof (cases "find_sep sep s")
      case None
      then show ?thesis by (simp add: m)
    next
      case (Some ab)
      obtain a b where ab: "ab = (a, b)" by (cases ab)
      from find_sep_length [OF Some [unfolded ab]] assms(1) have "length b < length s"
        by (cases sep) simp_all
      with Suc.prems m have "length b \<le> n" "length b \<le> m'"
        by simp_all
      from Suc.IH [OF this] show ?thesis
        by (simp add: Some ab m)
    qed
  qed
qed

lemma split_all_unbounded:
  "sep \<noteq> [] \<Longrightarrow> length s \<le> n \<Longrightarrow> split_max sep n s = split_all sep s"
  unfolding split_all_def by (rule split_max_enough) simp_all

lemma find_sep_first:
  assumes "CHR '':'' \<notin> set p"
  shows "find_sep ''::'' (p @ ''::'' @ rest) = Some (p, rest)"
  using assms by (induction p) auto

lemma split_max_three_parts:
  assumes "CHR '':'' \<notin> set p" and "CHR '':'' \<notin> set m"
  shows "split_max ''::'' 2 (p @ ''::'' @ m @ ''::'' @ n) = [p, m, n]"
proof -
  have "split_max ''::'' (Suc (Suc 0)) (p @ ''::'' @ (m @ ''::'' @ n)) = [p, m, n]"
    by (simp only: split_max.simps find_sep_first [OF assms(1)] find_sep_first [OF assms(2)]
        option.case prod.case)
  then show ?thesis
    by (simp add: numeral_2_eq_2)
qed

subsection \<open>Dictionaries and errors\<close>

lemma ebind_Inl [simp]: "ebind (Inl e) f = Inl e"
  by (simp add: ebind_def)

lemma ebind_Inr [simp]: "ebind (Inr x) f = f x"
  by (simp add: ebind_def)

lemma ebind_eq_Inr: "ebind m f = Inr y \<longleftrightarrow> (\<exists>x. m = Inr x \<and> f x = Inr y)"
  by (cases m) simp_all

lemma dict_get_set: "dict_get (dict_set d k v) k' = (if k' = k then Inr v else dict_get d k')"
  by (induction d) auto

lemma dict_set_again [simp]: "dict_set (dict_set d k v) k w = dict_set d k w"
  by (induction d) auto

lemma dict_get_error: "dict_get d k = Inl e \<Longrightarrow> e = KeyError k"
  by (induction d) (auto split: if_splits)

lemma dict_get_absent: "dict_get d k = Inl (KeyError k) \<longleftrightarrow> k \<notin> set (map fst d)"
  by (induction d) (auto split: if_splits)

lemma dict_set_fresh: "k \<notin> set (map fst d) \<Longrightarrow> dict_set d k v = d @ [(k, v)]"
  by (induction d) auto

lemma keys_dict_set: "set (map fst (dict_set d k v)) = insert k (set (map fst d))"
proof (induction d)
  case Nil
  show ?case by simp
next
  case (Cons p d)
  obtain k' v' where p: "p = (k', v')" by (cases p)
  show ?case
  proof (cases "k' = k")
    case True
    then show ?thesis using p by simp
  next
    case False
    have "set (map fst (dict_set (p # d) k v)) = insert k' (set (map fst (dict_set d k v)))"
      using False p by simp
    also have "\<dots> = insert k' (insert k (set (map fst d)))"
      by (simp only: Cons.IH)
    also have "\<dots> = insert k (set (map fst (p # d)))"
      using p by auto
    finally show ?thesis .
  qed
qed

lemma distinct_dict_set: "distinct (map fst d) \<Longrightarrow> distinct (map fst (dict_set d k v))"
proof (induction d)
  case Nil
  show ?case by simp
next
  case (Cons p d)
  obtain k' v' where p: "p = (k', v')" by (cases p)
  from Cons have "distinct (map fst (dict_set d k v))" by simp
  moreover have "k' \<noteq> k \<Longrightarrow> k' \<notin> set (map fst (dict_set d k v))"
    using Cons.prems p unfolding keys_dict_set by simp
  ultimately show ?case using Cons.prems p by auto
qed

lemma getitem_Inr: "getitem x k = Inr v \<longleftrightarrow> (\<exists>d. x = JDict d \<and> dict_get d k = Inr v)"
  by (cases x) simp_all

lemma descriptor_of_classify:
  "descriptor_of indata =
     ebind (dict_get indata ''type'') (\<lambda>ty.
     ebind (classify ty) (\<lambda>t. ObjectInfo_init (descriptor_class_of t) indata))"
  by (auto simp: descriptor_of_def classify_def ebind_def split: sum.splits)

lemma object_of_classify:
  "object_of descr indata =
     ebind (getitem indata ''type'') (\<lambda>ty.
     ebind (classify ty) (\<lambda>t. construct t indata descr))"
  by (auto simp: object_of_def classify_def ebind_def split: sum.splits)


lemma not_isl_iff: "\<not> isl x \<longleftrightarrow> (\<exists>y. x = Inr y)"
  by (cases x) simp_all

lemma dict_get_stored:
  "dict_get (stored dat prev reb) k =
     (if k = ''storageRebate'' then Inr reb
      else if k = ''previousTransaction'' then Inr prev else dict_get dat k)"
  by (simp add: stored_def dict_get_set)

lemma ObjectInfo_init_ok:
  assumes "descriptor_input indata"
  shows "\<exists>d. ObjectInfo_init cls indata = Inr d \<and> info_class d = cls \<and> info_type_raw d = indata
           \<and> dict_get indata ''objectId'' = Inr (info_identifier d)
           \<and> dict_get indata ''version'' = Inr (info_version d)
           \<and> dict_get indata ''digest'' = Inr (info_digest d)"
  using assms
  by (auto simp: descriptor_input_def present_def not_isl_iff ObjectInfo_init_def ebind_eq_Inr)

lemma from_object_type_run:
  assumes "dict_get inblock ''data'' = Inr (JDict dat)"
    and "dict_get inblock ''previousTransaction'' = Inr prev"
    and "dict_get inblock ''storageRebate'' = Inr reb"
  shows "from_object_type descr inblock =
           (object_of descr (JDict (stored dat prev reb)),
            dict_set inblock ''data'' (JDict (stored dat prev reb)))"
  using assms by (simp add: from_object_type_def Let_def dict_get_set stored_def)

lemma object_input_data:
  assumes "object_input inblock"
  obtains dat prev reb flds uid oid ty dt hpt where
    "dict_get inblock ''data'' = Inr (JDict dat)"
    "dict_get inblock ''previousTransaction'' = Inr prev"
    "dict_get inblock ''storageRebate'' = Inr reb"
    "dict_get dat ''fields'' = Inr (JDict flds)"
    "dict_get flds ''id'' = Inr (JDict uid)"
    "dict_get uid ''id'' = Inr oid"
    "dict_get dat ''type'' = Inr ty"
    "dict_get dat ''dataType'' = Inr dt"
    "dict_get dat ''has_public_transfer'' = Inr hpt"
  using assms
  by (auto simp: object_input_def present_def not_isl_iff ebind_eq_Inr getitem_Inr)

lemma ObjectRead_init_stored:
  assumes "dict_get dat ''fields'' = Inr (JDict flds)"
    "dict_get flds ''id'' = Inr (JDict uid)"
    "dict_get uid ''id'' = Inr oid"
    "dict_get dat ''type'' = Inr ty"
    "dict_get dat ''dataType'' = Inr dt"
    "dict_get dat ''has_public_transfer'' = Inr hpt"
  shows "ObjectRead_init (JDict (stored dat prev reb)) descr =
     Inr \<lparr> read_identifier = oid, read_type_raw = JDict (stored dat prev reb),
           read_type_signature = ty, read_data_type = dt, read_has_public_transfer = hpt,
           read_descriptor = descr, read_previous_transaction = prev,
           read_storage_rebate = reb \<rparr>"
  using assms by (simp add: ObjectRead_init_def dict_get_stored)

lemma classify_native: "classify (JStr ''0x2::coin::Coin<0x2::sui::SUI>'') = Inr NativeCoin"
  by code_simp

lemma classify_token: "classify (JStr ''0x2::coin::Coin<0x2::other::TOKEN>'') = Inr Coin"
  by code_simp

lemma classify_nft: "classify (JStr ''0x2::devnet_nft::DevNetNFT'') = Inr Nft"
  by code_simp

lemma classify_other_module:
  assumes "split_max ''::'' 2 s = ''0x2'' # m # rest" "m \<noteq> ''coin''" "m \<noteq> ''devnet_nft''"
  shows "classify (JStr s) = Inr Generic"
  using assms by (simp add: classify_def index_def)

lemma classify_structured:
  assumes "split_max ''::'' 2 s = [p, m, n]" "p \<noteq> ''0x2''"
  shows "classify (JStr s) = Inr StructuredData"
  using assms by (simp add: classify_def index_def)

lemma descriptor_of_tag:
  assumes "descriptor_input indata" "dict_get indata ''type'' = Inr ty" "classify ty = Inr t"
  shows "\<exists>d. fst (from_object_descriptor indata) = Inr d \<and> info_class d = descriptor_class_of t
           \<and> info_type_raw d = indata"
  using assms ObjectInfo_init_ok [OF assms(1), of "descriptor_class_of t"]
  by (auto simp: from_object_descriptor_def descriptor_of_classify)

lemma from_object_type_tag:
  assumes "object_input inblock"
  obtains dat prev reb flds b ty where
    "dict_get inblock ''data'' = Inr (JDict dat)"
    "dict_get inblock ''previousTransaction'' = Inr prev"
    "dict_get inblock ''storageRebate'' = Inr reb"
    "dict_get dat ''fields'' = Inr (JDict flds)"
    "dict_get dat ''type'' = Inr ty"
    "ObjectRead_init (JDict (stored dat prev reb)) descr = Inr b"
    "read_descriptor b = descr"
    "read_type_signature b = ty"
    "read_type_raw b = JDict (stored dat prev reb)"
    "getpath (JDict inblock) [''data'', ''fields'', ''id'', ''id''] = Inr (read_identifier b)"
    "from_object_type descr inblock =
       (ebind (classify ty) (\<lambda>t. construct t (JDict (stored dat prev reb)) descr),
        dict_set inblock ''data'' (JDict (stored dat prev reb)))"
proof -
  from assms obtain dat prev reb flds uid oid ty dt hpt where h:
    "dict_get inblock ''data'' = Inr (JDict dat)"
    "dict_get inblock ''previousTransaction'' = Inr prev"
    "dict_get inblock ''storageRebate'' = Inr reb"
    "dict_get dat ''fields'' = Inr (JDict flds)"
    "dict_get flds ''id'' = Inr (JDict uid)"
    "dict_get uid ''id'' = Inr oid"
    "dict_get dat ''type'' = Inr ty"
    "dict_get dat ''dataType'' = Inr dt"
    "dict_get dat ''has_public_transfer'' = Inr hpt"
    by (rule object_input_data)
  note init = ObjectRead_init_stored [OF h(4-9), of prev reb descr]
  have run: "from_object_type descr inblock =
       (ebind (classify ty) (\<lambda>t. construct t (JDict (stored dat prev reb)) descr),
        dict_set inblock ''data'' (JDict (stored dat prev reb)))"
    by (simp add: from_object_type_run [OF h(1-3)] object_of_classify dict_get_stored h(7))
  show thesis
    by (rule that [OF h(1-4) h(7) init _ _ _ _ run]) (simp_all add: h)
qed

section \<open>Classification of the signatures of the system package\<close>

text \<open>
  C1. A mapping that meets the input contract and whose type signature is
  \<^verbatim>\<open>0x2::coin::Coin<0x2::sui::SUI>\<close> is classified as the native coin by both classifiers
  (\<^verbatim>\<open>SuiNativeCoinDescriptor\<close>, \<^verbatim>\<open>SuiGasType\<close>, the latter reading the balance);
  \<^verbatim>\<open>0x2::coin::Coin<0x2::other::TOKEN>\<close> as the generic coin; \<^verbatim>\<open>0x2::devnet_nft::DevNetNFT\<close>
  as the NFT (which reads description, name and url); and every signature of package
  \<^verbatim>\<open>0x2\<close> with another module as the generic fallback (\<^verbatim>\<open>ObjectInfo\<close>,
  \<^verbatim>\<open>ObjectRead\<close>).
\<close>

theorem classifiers_on_system_package:
  assumes "descriptor_input indata"
    and "dict_get indata ''type'' = Inr (JStr sig)"
    and "object_input inblock"
    and "getpath (JDict inblock) [''data'', ''type''] = Inr (JStr sig)"
  shows
    "(sig = ''0x2::coin::Coin<0x2::sui::SUI>'' \<longrightarrow>
        map_sum id info_class (fst (from_object_descriptor indata)) = Inr SuiNativeCoinDescriptor \<and>
        (present (JDict inblock) [''data'', ''fields'', ''balance''] \<longrightarrow>
           map_sum id is_SuiGasType (fst (from_object_type descr inblock)) = Inr True)) \<and>
     (sig = ''0x2::coin::Coin<0x2::other::TOKEN>'' \<longrightarrow>
        map_sum id info_class (fst (from_object_descriptor indata)) = Inr SuiCoinDescriptor \<and>
        map_sum id is_SuiCoinType (fst (from_object_type descr inblock)) = Inr True) \<and>
     (sig = ''0x2::devnet_nft::DevNetNFT'' \<longrightarrow>
        map_sum id info_class (fst (from_object_descriptor indata)) = Inr SuiNftDescriptor \<and>
        (present (JDict inblock) [''data'', ''fields'', ''description''] \<and>
         present (JDict inblock) [''data'', ''fields'', ''name''] \<and>
         present (JDict inblock) [''data'', ''fields'', ''url''] \<longrightarrow>
           map_sum id is_SuiNftType (fst (from_object_type descr inblock)) = Inr True)) \<and>
     (\<forall>m rest. split_max ''::'' 2 sig = ''0x2'' # m # rest \<and> m \<noteq> ''coin'' \<and> m \<noteq> ''devnet_nft'' \<longrightarrow>
        map_sum id info_class (fst (from_object_descriptor indata)) = Inr ObjectInfo \<and>
        map_sum id is_ObjectRead (fst (from_object_type descr inblock)) = Inr True)"
proof -
  obtain dat prev reb flds b ty where h:
    "dict_get inblock ''data'' = Inr (JDict dat)"
    "dict_get dat ''fields'' = Inr (JDict flds)"
    "dict_get dat ''type'' = Inr ty"
    "ObjectRead_init (JDict (stored dat prev reb)) descr = Inr b"
    "from_object_type descr inblock =
       (ebind (classify ty) (\<lambda>t. construct t (JDict (stored dat prev reb)) descr),
        dict_set inblock ''data'' (JDict (stored dat prev reb)))"
    using from_object_type_tag [OF assms(3), of descr] by metis
  have ty: "ty = JStr sig"
    using assms(4) h(1) h(3) by simp
  have D: "map_sum id info_class (fst (from_object_descriptor indata)) = Inr (descriptor_class_of t)"
    if "classify (JStr sig) = Inr t" for t
    using descriptor_of_tag [OF assms(1,2) that] by auto
  have O: "fst (from_object_type descr inblock) = construct t (JDict (stored dat prev reb)) descr"
    if "classify (JStr sig) = Inr t" for t
    using that by (simp add: h(5) ty)
  have F: "dict_get (stored dat prev reb) ''fields'' = Inr (JDict flds)"
    by (simp add: dict_get_stored h(2))
  have P: "\<exists>v. dict_get flds k = Inr v" if "present (JDict inblock) [''data'', ''fields'', k]" for k
    using that by (auto simp: present_def h(1) h(2) not_isl_iff ebind_eq_Inr)
  have native: "map_sum id is_SuiGasType (fst (from_object_type descr inblock)) = Inr True"
    if "sig = ''0x2::coin::Coin<0x2::sui::SUI>''"
       "present (JDict inblock) [''data'', ''fields'', ''balance'']"
    using P [OF that(2)] O [of NativeCoin] that(1)
    by (auto simp: classify_native SuiGasType_init_def h(4) F)
  have token: "map_sum id is_SuiCoinType (fst (from_object_type descr inblock)) = Inr True"
    if "sig = ''0x2::coin::Coin<0x2::other::TOKEN>''"
    using O [of Coin] that by (simp add: classify_token h(4))
  have nft: "map_sum id is_SuiNftType (fst (from_object_type descr inblock)) = Inr True"
    if "sig = ''0x2::devnet_nft::DevNetNFT''"
       "present (JDict inblock) [''data'', ''fields'', ''description'']"
       "present (JDict inblock) [''data'', ''fields'', ''name'']"
       "present (JDict inblock) [''data'', ''fields'', ''url'']"
    using P [OF that(2)] P [OF that(3)] P [OF that(4)] O [of Nft] that(1)
    by (auto simp: classify_nft SuiNftType_init_def h(4) F)
  have other: "map_sum id is_ObjectRead (fst (from_object_type descr inblock)) = Inr True"
    if "split_max ''::'' 2 sig = ''0x2'' # m # rest" "m \<noteq> ''coin''" "m \<noteq> ''devnet_nft''" for m rest
    using O [of Generic] classify_other_module [OF that] by (simp add: h(4))
  show ?thesis
    using D [of NativeCoin] D [of Coin] D [of Nft] D [of Generic] native token nft other
      classify_other_module [of sig]
    by (auto simp: classify_native classify_token classify_nft)
qed


theorem classifiers_on_system_package_witness:
  "map_sum id info_class
     (fst (from_object_descriptor (sample_descriptor ''0x2::coin::Coin<0x2::sui::SUI>'')))
     = Inr SuiNativeCoinDescriptor \<and>
   map_sum id is_SuiGasType
     (fst (from_object_type sample_info (sample_block ''0x2::coin::Coin<0x2::sui::SUI>'')))
     = Inr True \<and>
   map_sum id info_class
     (fst (from_object_descriptor (sample_descriptor ''0x2::coin::Coin<0x2::other::TOKEN>'')))
     = Inr SuiCoinDescriptor \<and>
   map_sum id is_SuiCoinType
     (fst (from_object_type sample_info (sample_block ''0x2::coin::Coin<0x2::other::TOKEN>'')))
     = Inr True \<and>
   map_sum id info_class
     (fst (from_object_descriptor (sample_descriptor ''0x2::devnet_nft::DevNetNFT'')))
     = Inr SuiNftDescriptor \<and>
   map_sum id is_SuiNftType
     (fst (from_object_type sample_info (sample_block ''0x2::devnet_nft::DevNetNFT'')))
     = Inr True \<and>
   map_sum id info_class
     (fst (from_object_descriptor (sample_descriptor ''0x2::clock::Clock'')))
     = Inr ObjectInfo \<and>
   map_sum id is_ObjectRead
     (fst (from_object_type sample_info (sample_block ''0x2::clock::Clock'')))
     = Inr True"
proof -
  have d: "descriptor_input (sample_descriptor s)" for s
    by (simp add: descriptor_input_def sample_descriptor_def present_def)
  have t: "dict_get (sample_descriptor s) ''type'' = Inr (JStr s)" for s
    by (simp add: sample_descriptor_def)
  have b: "object_input (sample_block s)" for s
    by (simp add: object_input_def sample_block_def present_def)
  have bt: "getpath (JDict (sample_block s)) [''data'', ''type''] = Inr (JStr s)" for s
    by (simp add: sample_block_def)
  have p: "present (JDict (sample_block s)) [''data'', ''fields'', ''balance'']"
    "present (JDict (sample_block s)) [''data'', ''fields'', ''description'']"
    "present (JDict (sample_block s)) [''data'', ''fields'', ''name'']"
    "present (JDict (sample_block s)) [''data'', ''fields'', ''url'']" for s
    by (simp_all add: sample_block_def present_def)
  have sp: "split_max ''::'' 2 ''0x2::clock::Clock'' = ''0x2'' # ''clock'' # [''Clock'']"
    by code_simp
  note T = classifiers_on_system_package [OF d t b bt, of _ sample_info]
  have native:
    "map_sum id info_class
       (fst (from_object_descriptor (sample_descriptor ''0x2::coin::Coin<0x2::sui::SUI>'')))
       = Inr SuiNativeCoinDescriptor \<and>
     map_sum id is_SuiGasType
       (fst (from_object_type sample_info (sample_block ''0x2::coin::Coin<0x2::sui::SUI>'')))
       = Inr True"
    using T [of "''0x2::coin::Coin<0x2::sui::SUI>''"] p by simp
  have token:
    "map_sum id info_class
       (fst (from_object_descriptor (sample_descriptor ''0x2::coin::Coin<0x2::other::TOKEN>'')))
       = Inr SuiCoinDescriptor \<and>
     map_sum id is_SuiCoinType
       (fst (from_object_type sample_info (sample_block ''0x2::coin::Coin<0x2::other::TOKEN>'')))
       = Inr True"
    using T [of "''0x2::coin::Coin<0x2::other::TOKEN>''"] by simp
  have nft:
    "map_sum id info_class
       (fst (from_object_descriptor (sample_descriptor ''0x2::devnet_nft::DevNetNFT'')))
       = Inr SuiNftDescriptor \<and>
     map_sum id is_SuiNftType
       (fst (from_object_type sample_info (sample_block ''0x2::devnet_nft::DevNetNFT'')))
       = Inr True"
    using T [of "''0x2::devnet_nft::DevNetNFT''"] p by simp
  have other:
    "map_sum id info_class
       (fst (from_object_descriptor (sample_descriptor ''0x2::clock::Clock'')))
       = Inr ObjectInfo \<and>
     map_sum id is_ObjectRead
       (fst (from_object_type sample_info (sample_block ''0x2::clock::Clock'')))
       = Inr True"
    using T [of "''0x2::clock::Clock''"] sp by simp
  from native token nft other show ?thesis by simp
qed

section \<open>Structured data\<close>

lemma SuiDataType_init_stored:
  assumes "ObjectRead_init (JDict (stored dat prev reb)) descr = Inr b"
    and "read_type_signature b = JStr sig"
    and "dict_get dat ''fields'' = Inr (JDict flds)"
  shows "SuiDataType_init (JDict (stored dat prev reb)) descr =
           Inr (SuiDataType b (zip [''package'', ''module'', ''structure''] (split_max ''::'' 2 sig))
                  (copy_fields flds []) [])"
  using assms by (simp add: SuiDataType_init_def dict_get_stored)

text \<open>
  C2, as the claim states it, fails: \<^verbatim>\<open>0x2::clock::Clock\<close> has three parts and is neither
  in \<^verbatim>\<open>0x2::coin\<close> nor in \<^verbatim>\<open>0x2::devnet_nft\<close>, yet both classifiers return the generic
  fallback, not the structured-data class.
\<close>

theorem structured_data_counterexample:
  "split_max ''::'' 2 ''0x2::clock::Clock'' = [''0x2'', ''clock'', ''Clock''] \<and>
   map_sum id info_class (fst (from_object_descriptor (sample_descriptor ''0x2::clock::Clock'')))
     = Inr ObjectInfo \<and>
   map_sum id is_SuiDataType
     (fst (from_object_type sample_info (sample_block ''0x2::clock::Clock''))) = Inr False"
  by code_simp

text \<open>
  C2, amended. For every type signature that \<^verbatim>\<open>split("::", 2)\<close> cuts into three parts and
  whose package is not \<^verbatim>\<open>0x2\<close>, on inputs that meet the input contract, the descriptor
  classifier returns a \<^verbatim>\<open>SuiDataDescriptor\<close> and the object classifier a
  \<^verbatim>\<open>SuiDataType\<close> whose \<^verbatim>\<open>package\<close>, \<^verbatim>\<open>module\<close> and \<^verbatim>\<open>structure\<close> are the three
  parts.
\<close>

theorem structured_data_outside_system_package:
  assumes "descriptor_input indata"
    and "dict_get indata ''type'' = Inr (JStr sig)"
    and "object_input inblock"
    and "getpath (JDict inblock) [''data'', ''type''] = Inr (JStr sig)"
    and "split_max ''::'' 2 sig = [p, m, n]"
    and "p \<noteq> ''0x2''"
  shows "map_sum id info_class (fst (from_object_descriptor indata)) = Inr SuiDataDescriptor \<and>
         (\<exists>obj. fst (from_object_type descr inblock) = Inr obj \<and> is_SuiDataType obj \<and>
            package obj = Inr p \<and> module obj = Inr m \<and> structure_id obj = Inr n)"
proof -
  have c: "classify (JStr sig) = Inr StructuredData"
    by (rule classify_structured [OF assms(5,6)])
  obtain dat prev reb flds b ty where h:
    "dict_get inblock ''data'' = Inr (JDict dat)"
    "dict_get dat ''fields'' = Inr (JDict flds)"
    "dict_get dat ''type'' = Inr ty"
    "ObjectRead_init (JDict (stored dat prev reb)) descr = Inr b"
    "read_type_signature b = ty"
    "from_object_type descr inblock =
       (ebind (classify ty) (\<lambda>t. construct t (JDict (stored dat prev reb)) descr),
        dict_set inblock ''data'' (JDict (stored dat prev reb)))"
    using from_object_type_tag [OF assms(3), of descr] by metis
  have ty: "ty = JStr sig"
    using assms(4) h(1) h(3) by simp
  have "fst (from_object_type descr inblock) =
          Inr (SuiDataType b [(''package'', p), (''module'', m), (''structure'', n)]
                 (copy_fields flds []) [])"
    using SuiDataType_init_stored [OF h(4) h(5) [unfolded ty] h(2)]
    by (simp add: h(6) ty c assms(5))
  moreover have "map_sum id info_class (fst (from_object_descriptor indata)) = Inr SuiDataDescriptor"
    using descriptor_of_tag [OF assms(1,2) c] by auto
  ultimately show ?thesis
    by (simp add: package_def module_def structure_id_def)
qed

theorem structured_data_outside_system_package_witness:
  "map_sum id info_class (fst (from_object_descriptor (sample_descriptor ''0x7::m::S'')))
     = Inr SuiDataDescriptor \<and>
   (\<exists>obj. fst (from_object_type sample_info (sample_block ''0x7::m::S'')) = Inr obj \<and>
      is_SuiDataType obj \<and> package obj = Inr ''0x7'' \<and> module obj = Inr ''m'' \<and>
      structure_id obj = Inr ''S'')"
proof -
  have d: "descriptor_input (sample_descriptor ''0x7::m::S'')"
    by (simp add: descriptor_input_def sample_descriptor_def present_def)
  have t: "dict_get (sample_descriptor ''0x7::m::S'') ''type'' = Inr (JStr ''0x7::m::S'')"
    by (simp add: sample_descriptor_def)
  have b: "object_input (sample_block ''0x7::m::S'')"
    by (simp add: object_input_def sample_block_def present_def)
  have bt: "getpath (JDict (sample_block ''0x7::m::S'')) [''data'', ''type'']
              = Inr (JStr ''0x7::m::S'')"
    by (simp add: sample_block_def)
  have sp: "split_max ''::'' 2 ''0x7::m::S'' = [''0x7'', ''m'', ''S'']"
    by code_simp
  have ne: "''0x7'' \<noteq> ''0x2''"
    by simp
  show ?thesis
    by (rule structured_data_outside_system_package [OF d t b bt sp ne])
qed

section \<open>What a constructed object holds\<close>

lemma ObjectRead_init_Inr:
  assumes "ObjectRead_init indata descr = Inr b"
  shows "read_descriptor b = descr" and "read_type_raw b = indata"
    and "getpath indata [''fields'', ''id'', ''id''] = Inr (read_identifier b)"
    and "getitem indata ''type'' = Inr (read_type_signature b)"
  using assms by (auto simp: ObjectRead_init_def ebind_eq_Inr)

lemma construct_base:
  assumes "construct t indata descr = Inr obj"
  shows "ObjectRead_init indata descr = Inr (base obj)"
  using assms
  by (cases t)
     (auto simp: SuiDataType_init_def SuiNftType_init_def SuiGasType_init_def ebind_eq_Inr)

lemma from_object_type_Inr:
  assumes "fst (from_object_type descr inblock) = Inr obj"
  obtains dat prev reb ty t where
    "dict_get inblock ''data'' = Inr (JDict dat)"
    "dict_get inblock ''previousTransaction'' = Inr prev"
    "dict_get inblock ''storageRebate'' = Inr reb"
    "dict_get dat ''type'' = Inr ty"
    "classify ty = Inr t"
    "construct t (JDict (stored dat prev reb)) descr = Inr obj"
    "snd (from_object_type descr inblock) = dict_set inblock ''data'' (JDict (stored dat prev reb))"
proof -
  from assms obtain x where x: "dict_get inblock ''data'' = Inr x"
    by (cases "dict_get inblock ''data''") (simp_all add: from_object_type_def)
  from assms x obtain prev where prev: "dict_get inblock ''previousTransaction'' = Inr prev"
    by (cases "dict_get inblock ''previousTransaction''") (simp_all add: from_object_type_def)
  from assms x prev obtain dat where dat: "x = JDict dat"
    by (cases x) (simp_all add: from_object_type_def)
  from assms x prev dat obtain reb where reb: "dict_get inblock ''storageRebate'' = Inr reb"
    by (cases "dict_get inblock ''storageRebate''")
       (simp_all add: from_object_type_def Let_def dict_get_set)
  note run = from_object_type_run [OF x [unfolded dat] prev reb, of descr]
  from assms have "object_of descr (JDict (stored dat prev reb)) = Inr obj"
    by (simp add: run)
  then obtain ty t where "dict_get dat ''type'' = Inr ty" "classify ty = Inr t"
    "construct t (JDict (stored dat prev reb)) descr = Inr obj"
    by (auto simp: object_of_classify ebind_eq_Inr dict_get_stored)
  then show thesis
    using that x dat prev reb run by simp
qed

lemma from_object_type_base:
  assumes "fst (from_object_type descr inblock) = Inr obj"
  shows "read_descriptor (base obj) = descr"
    and "getpath (JDict inblock) [''data'', ''fields'', ''id'', ''id'']
           = Inr (read_identifier (base obj))"
    and "dict_get (snd (from_object_type descr inblock)) ''data'' = Inr (read_type_raw (base obj))"
proof -
  from assms obtain dat prev reb ty t where h:
    "dict_get inblock ''data'' = Inr (JDict dat)"
    "construct t (JDict (stored dat prev reb)) descr = Inr obj"
    "snd (from_object_type descr inblock) = dict_set inblock ''data'' (JDict (stored dat prev reb))"
    by (rule from_object_type_Inr)
  note b = ObjectRead_init_Inr [OF construct_base [OF h(2)]]
  show "read_descriptor (base obj) = descr"
    by (rule b(1))
  show "getpath (JDict inblock) [''data'', ''fields'', ''id'', ''id'']
          = Inr (read_identifier (base obj))"
    using b(3) by (simp add: h(1) dict_get_stored)
  show "dict_get (snd (from_object_type descr inblock)) ''data'' = Inr (read_type_raw (base obj))"
    by (simp add: h(3) dict_get_set b(2))
qed

lemma sample_block_constructs: "\<not> isl (fst (from_object_type sample_info (sample_block ''0x7::m::S'')))"
  by code_simp

text \<open>
  C3. Every object that the object classifier constructs, whatever its class, answers
  \<^verbatim>\<open>version\<close> and \<^verbatim>\<open>digest\<close> with the version and digest of the descriptor it was given,
  and holds that descriptor. Nothing is assumed of the content block: it need not hold a
  version or a digest, and one it holds is not read.
\<close>

theorem object_version_digest_proxy:
  assumes "fst (from_object_type descr inblock) = Inr obj"
  shows "version obj = info_version descr \<and> digest obj = info_digest descr \<and>
         descriptor obj = descr"
  using from_object_type_base(1) [OF assms]
  by (simp add: version_def digest_def descriptor_def)

theorem object_version_digest_proxy_witness:
  "\<exists>obj. fst (from_object_type sample_info (sample_block ''0x7::m::S'')) = Inr obj \<and>
     version obj = JNum 7 \<and> digest obj = JStr ''dg='' \<and> descriptor obj = sample_info \<and>
     isl (getpath (JDict (sample_block ''0x7::m::S'')) [''data'', ''version''])"
proof -
  obtain obj where obj: "fst (from_object_type sample_info (sample_block ''0x7::m::S'')) = Inr obj"
    using sample_block_constructs by (auto simp: not_isl_iff)
  have "isl (getpath (JDict (sample_block ''0x7::m::S'')) [''data'', ''version''])"
    by (simp add: sample_block_def)
  with object_version_digest_proxy [OF obj] obj show ?thesis
    by (simp add: sample_info_def)
qed

section \<open>Missing keys and malformed signatures\<close>

lemma index_error: "index xs i = Inl e \<Longrightarrow> e = IndexError"
  by (simp add: index_def split: if_splits)

lemma json_split2_error: "json_split2 ty = Inl e \<Longrightarrow> e = AttributeError"
  by (cases ty) simp_all

lemma classify_error:
  assumes "classify ty = Inl e"
  shows "e = AttributeError \<or> e = IndexError"
proof (cases "json_split2 ty")
  case (Inl e')
  with assms show ?thesis
    by (auto simp: classify_def dest: json_split2_error)
next
  case (Inr split)
  with assms show ?thesis
    by (auto simp: classify_def ebind_def split: sum.splits if_splits dest: index_error)
qed

lemma ObjectInfo_init_no_id:
  assumes "''objectId'' \<notin> set (map fst indata)"
  shows "ObjectInfo_init cls indata = Inl (KeyError ''objectId'')"
  using assms by (simp add: ObjectInfo_init_def dict_get_absent [symmetric] del: set_map)

text \<open>
  C4, as the claim states it, fails: \<^verbatim>\<open>type\<close> is read, split and classified before the
  constructor reads \<^verbatim>\<open>objectId\<close>. The mapping \<^verbatim>\<open>{"type": "0x2"}\<close> has no
  \<^verbatim>\<open>objectId\<close>, and the classifier raises \<^verbatim>\<open>IndexError\<close>, not a missing-key error.
\<close>

theorem missing_object_id_counterexample:
  "dict_get [(''type'', JStr ''0x2'')] ''objectId'' = Inl (KeyError ''objectId'') \<and>
   fst (from_object_descriptor [(''type'', JStr ''0x2'')]) = Inl IndexError"
  by code_simp

text \<open>
  C4, amended. For every descriptor mapping without the key \<^verbatim>\<open>objectId\<close> the descriptor
  classifier returns no descriptor: it raises. It reads \<^verbatim>\<open>type\<close> first, so when
  \<^verbatim>\<open>type\<close> is missing, is not a string or fails the classification, that error is raised
  (\<^verbatim>\<open>KeyError('type')\<close>, \<^verbatim>\<open>AttributeError\<close> or \<^verbatim>\<open>IndexError\<close>); in every other
  case \<^verbatim>\<open>KeyError('objectId')\<close> is raised, whatever other keys are missing, since
  \<^verbatim>\<open>objectId\<close> is the first key that the constructor of every descriptor class reads.
\<close>

theorem missing_object_id_raises:
  assumes "''objectId'' \<notin> set (map fst indata)"
  shows "fst (from_object_descriptor indata) =
           (case ebind (dict_get indata ''type'') classify of
              Inl e \<Rightarrow> Inl e
            | Inr t \<Rightarrow> Inl (KeyError ''objectId'')) \<and>
         (\<exists>e. fst (from_object_descriptor indata) = Inl e \<and>
              (e = KeyError ''objectId'' \<or> e = KeyError ''type'' \<or>
               e = AttributeError \<or> e = IndexError)) \<and>
         ObjectInfo_init cls indata = Inl (KeyError ''objectId'')"
proof -
  note init = ObjectInfo_init_no_id [OF assms]
  have eq: "fst (from_object_descriptor indata) =
           (case ebind (dict_get indata ''type'') classify of
              Inl e \<Rightarrow> Inl e
            | Inr t \<Rightarrow> Inl (KeyError ''objectId''))"
    by (simp add: from_object_descriptor_def descriptor_of_classify init ebind_def
             split: sum.splits)
  have "\<exists>e. fst (from_object_descriptor indata) = Inl e \<and>
              (e = KeyError ''objectId'' \<or> e = KeyError ''type'' \<or>
               e = AttributeError \<or> e = IndexError)"
  proof (cases "dict_get indata ''type''")
    case (Inl e)
    then show ?thesis
      using dict_get_error [OF Inl] by (simp add: eq)
  next
    case (Inr ty)
    then show ?thesis
      using classify_error [of ty] by (cases "classify ty") (auto simp: eq)
  qed
  with eq init show ?thesis by simp
qed

theorem missing_object_id_raises_witness:
  "''objectId'' \<notin> set (map fst [(''version'', JNum 7), (''type'', JStr ''0x7::m::S'')]) \<and>
   fst (from_object_descriptor [(''version'', JNum 7), (''type'', JStr ''0x7::m::S'')])
     = Inl (KeyError ''objectId'')"
proof -
  have a: "''objectId'' \<notin> set (map fst [(''version'', JNum 7), (''type'', JStr ''0x7::m::S'')])"
    by simp
  have c: "classify (JStr ''0x7::m::S'') = Inr StructuredData"
    by code_simp
  from missing_object_id_raises [OF a, of ObjectInfo] a c show ?thesis
    by simp
qed

lemma split_max_length: "length (split_max sep n s) \<le> Suc n \<and> split_max sep n s \<noteq> []"
  by (induction n arbitrary: s) (auto split: option.splits)

lemma getitem_error: "getitem x k = Inl e \<Longrightarrow> e = KeyError k \<or> e = TypeError"
  by (cases x) (auto dest: dict_get_error)

lemma ObjectInfo_init_error: "ObjectInfo_init cls indata = Inl e \<Longrightarrow> e \<noteq> IndexError"
  by (auto simp: ObjectInfo_init_def ebind_def split: sum.splits
           dest!: dict_get_error getitem_error)

lemma ObjectRead_init_error: "ObjectRead_init indata descr = Inl e \<Longrightarrow> e \<noteq> IndexError"
  by (auto simp: ObjectRead_init_def ebind_def split: sum.splits dest!: getitem_error)

lemma json_items_error: "json_items x = Inl e \<Longrightarrow> e = AttributeError"
  by (cases x) simp_all

lemma construct_error: "construct t indata descr = Inl e \<Longrightarrow> e \<noteq> IndexError"
  by (cases t)
     (auto simp: SuiDataType_init_def SuiNftType_init_def SuiGasType_init_def ebind_def
           split: sum.splits
           dest!: getitem_error ObjectRead_init_error json_split2_error json_items_error)

lemma classify_index_failure:
  "classify (JStr sig) = (if index_failure sig then Inl IndexError
     else Inr (case split_max ''::'' 2 sig of
        [p, m, r] \<Rightarrow>
          if p = ''0x2'' then
            if m = ''coin'' then
              if split_all ''::'' (slice_5_m1 r) ! 2 = ''SUI'' then NativeCoin else Coin
            else if m = ''devnet_nft'' \<and> r = ''DevNetNFT'' then Nft else Generic
          else StructuredData
      | _ \<Rightarrow> Generic))"
proof -
  obtain p rest where s: "split_max ''::'' 2 sig = p # rest"
    using split_max_length [of "''::''" 2 sig] by (cases "split_max ''::'' 2 sig") auto
  have len: "length rest \<le> 2"
    using split_max_length [of "''::''" 2 sig] s by simp
  show ?thesis
  proof (cases rest)
    case Nil
    then show ?thesis using s by (simp add: classify_def index_failure_def index_def)
  next
    case (Cons m rest')
    show ?thesis
    proof (cases rest')
      case Nil
      then show ?thesis using s Cons by (simp add: classify_def index_failure_def index_def)
    next
      case (Cons r rest'')
      with len \<open>rest = m # rest'\<close> have "rest'' = []" by simp
      then show ?thesis
        using s \<open>rest = m # rest'\<close> Cons
        by (simp add: classify_def index_failure_def index_def)
    qed
  qed
qed

lemma classify_not_system:
  assumes "hd (split_max ''::'' 2 sig) \<noteq> ''0x2''"
  shows "classify (JStr sig) =
           Inr (if length (split_max ''::'' 2 sig) = 3 then StructuredData else Generic)"
proof -
  obtain p rest where s: "split_max ''::'' 2 sig = p # rest"
    using split_max_length [of "''::''" 2 sig] by (cases "split_max ''::'' 2 sig") auto
  with assms show ?thesis
    by (simp add: classify_def index_def)
qed

lemma descriptor_index_error:
  assumes "dict_get indata ''type'' = Inr (JStr sig)"
  shows "fst (from_object_descriptor indata) = Inl IndexError \<longleftrightarrow> index_failure sig"
proof (cases "index_failure sig")
  case True
  then show ?thesis
    by (simp add: from_object_descriptor_def descriptor_of_classify assms classify_index_failure)
next
  case False
  then show ?thesis
    using ObjectInfo_init_error [of _ indata IndexError]
    by (auto simp: from_object_descriptor_def descriptor_of_classify assms classify_index_failure)
qed

lemma object_index_error:
  assumes "getpath (JDict inblock) [''data'', ''type''] = Inr (JStr sig)"
    and "present (JDict inblock) [''previousTransaction'']"
    and "present (JDict inblock) [''storageRebate'']"
  shows "fst (from_object_type descr inblock) = Inl IndexError \<longleftrightarrow> index_failure sig"
proof -
  from assms obtain dat prev reb where h:
    "dict_get inblock ''data'' = Inr (JDict dat)"
    "dict_get inblock ''previousTransaction'' = Inr prev"
    "dict_get inblock ''storageRebate'' = Inr reb"
    "dict_get dat ''type'' = Inr (JStr sig)"
    by (auto simp: present_def not_isl_iff ebind_eq_Inr getitem_Inr)
  have run: "fst (from_object_type descr inblock) =
               ebind (classify (JStr sig)) (\<lambda>t. construct t (JDict (stored dat prev reb)) descr)"
    by (simp add: from_object_type_run [OF h(1-3)] object_of_classify dict_get_stored h(4))
  show ?thesis
  proof (cases "index_failure sig")
    case True
    then show ?thesis by (simp add: run classify_index_failure)
  next
    case False
    then show ?thesis
      using construct_error [of _ "JDict (stored dat prev reb)" descr IndexError]
      by (auto simp: run classify_index_failure)
  qed
qed

text \<open>
  C5, as the claim states it, fails: \<^verbatim>\<open>abc\<close> has no \<^verbatim>\<open>::\<close> at all, and both
  classifiers return the generic fallback instead of raising.
\<close>

theorem malformed_signature_counterexample:
  "split_max ''::'' 2 ''abc'' = [''abc''] \<and>
   map_sum id info_class (fst (from_object_descriptor (sample_descriptor ''abc'')))
     = Inr ObjectInfo \<and>
   map_sum id is_ObjectRead (fst (from_object_type sample_info (sample_block ''abc'')))
     = Inr True"
  by code_simp

text \<open>
  C5, amended. The module has no \<^verbatim>\<open>FormatError\<close>; the shape of a signature makes a
  classifier fail only by an index out of range (\<^verbatim>\<open>IndexError\<close>), and it does so exactly
  when the package is \<^verbatim>\<open>0x2\<close> and the module is missing, or the module is \<^verbatim>\<open>coin\<close> or
  \<^verbatim>\<open>devnet_nft\<close> and the third part is missing, or the module is \<^verbatim>\<open>coin\<close> and the
  unwrapped third part has fewer than three parts. A signature whose first part is not
  \<^verbatim>\<open>0x2\<close> never fails for its shape: on inputs that meet the input contract it gives the
  structured-data class when it has three parts and the generic fallback otherwise.
\<close>

theorem malformed_signature_index_error:
  assumes "dict_get indata ''type'' = Inr (JStr sig)"
    and "getpath (JDict inblock) [''data'', ''type''] = Inr (JStr sig)"
    and "present (JDict inblock) [''previousTransaction'']"
    and "present (JDict inblock) [''storageRebate'']"
  shows "(fst (from_object_descriptor indata) = Inl IndexError \<longleftrightarrow> index_failure sig) \<and>
         (fst (from_object_type descr inblock) = Inl IndexError \<longleftrightarrow> index_failure sig) \<and>
         (hd (split_max ''::'' 2 sig) \<noteq> ''0x2'' \<and> descriptor_input indata \<and> object_input inblock \<longrightarrow>
            map_sum id info_class (fst (from_object_descriptor indata)) =
              Inr (if length (split_max ''::'' 2 sig) = 3 then SuiDataDescriptor else ObjectInfo) \<and>
            map_sum id (if length (split_max ''::'' 2 sig) = 3 then is_SuiDataType else is_ObjectRead)
              (fst (from_object_type descr inblock)) = Inr True)"
proof -
  have ok: "map_sum id info_class (fst (from_object_descriptor indata)) =
              Inr (if length (split_max ''::'' 2 sig) = 3 then SuiDataDescriptor else ObjectInfo) \<and>
            map_sum id (if length (split_max ''::'' 2 sig) = 3 then is_SuiDataType else is_ObjectRead)
              (fst (from_object_type descr inblock)) = Inr True"
    if ns: "hd (split_max ''::'' 2 sig) \<noteq> ''0x2''" and di: "descriptor_input indata"
      and oi: "object_input inblock"
  proof -
    note c = classify_not_system [OF ns]
    obtain dat prev reb flds b ty where h:
      "dict_get inblock ''data'' = Inr (JDict dat)"
      "dict_get dat ''fields'' = Inr (JDict flds)"
      "dict_get dat ''type'' = Inr ty"
      "ObjectRead_init (JDict (stored dat prev reb)) descr = Inr b"
      "read_type_signature b = ty"
      "from_object_type descr inblock =
         (ebind (classify ty) (\<lambda>t. construct t (JDict (stored dat prev reb)) descr),
          dict_set inblock ''data'' (JDict (stored dat prev reb)))"
      using from_object_type_tag [OF oi, of descr] by metis
    have ty: "ty = JStr sig"
      using assms(2) h(1) h(3) by simp
    have D: "map_sum id info_class (fst (from_object_descriptor indata)) =
              Inr (if length (split_max ''::'' 2 sig) = 3 then SuiDataDescriptor else ObjectInfo)"
      using descriptor_of_tag [OF di assms(1) c] by auto
    have O: "map_sum id (if length (split_max ''::'' 2 sig) = 3 then is_SuiDataType else is_ObjectRead)
              (fst (from_object_type descr inblock)) = Inr True"
      using SuiDataType_init_stored [OF h(4) h(5) [unfolded ty] h(2)]
      by (simp add: h(6) ty c h(4))
    from D O show ?thesis ..
  qed
  show ?thesis
    using descriptor_index_error [OF assms(1)] object_index_error [OF assms(2-4), of descr] ok
    by blast
qed

theorem malformed_signature_index_error_witness:
  "index_failure ''0x2::coin::Coin<SUI>'' \<and>
   fst (from_object_descriptor (sample_descriptor ''0x2::coin::Coin<SUI>'')) = Inl IndexError \<and>
   fst (from_object_type sample_info (sample_block ''0x2::coin::Coin<SUI>'')) = Inl IndexError \<and>
   map_sum id info_class (fst (from_object_descriptor (sample_descriptor ''0x7::m''))) = Inr ObjectInfo \<and>
   map_sum id is_ObjectRead (fst (from_object_type sample_info (sample_block ''0x7::m''))) = Inr True"
proof -
  have d: "descriptor_input (sample_descriptor s)" for s
    by (simp add: descriptor_input_def sample_descriptor_def present_def)
  have t: "dict_get (sample_descriptor s) ''type'' = Inr (JStr s)" for s
    by (simp add: sample_descriptor_def)
  have b: "object_input (sample_block s)" for s
    by (simp add: object_input_def sample_block_def present_def)
  have bt: "getpath (JDict (sample_block s)) [''data'', ''type''] = Inr (JStr s)" for s
    by (simp add: sample_block_def)
  have p: "present (JDict (sample_block s)) [''previousTransaction'']"
    "present (JDict (sample_block s)) [''storageRebate'']" for s
    by (simp_all add: sample_block_def present_def)
  have f: "index_failure ''0x2::coin::Coin<SUI>''"
    by code_simp
  have sp: "split_max ''::'' 2 ''0x7::m'' = [''0x7'', ''m'']"
    by code_simp
  note T = malformed_signature_index_error [OF t bt p, of _ sample_info]
  from T [of "''0x2::coin::Coin<SUI>''"] f
  have 1: "fst (from_object_descriptor (sample_descriptor ''0x2::coin::Coin<SUI>'')) = Inl IndexError \<and>
     fst (from_object_type sample_info (sample_block ''0x2::coin::Coin<SUI>'')) = Inl IndexError"
    by simp
  from T [of "''0x7::m''"] sp d b
  have 2: "map_sum id info_class (fst (from_object_descriptor (sample_descriptor ''0x7::m''))) = Inr ObjectInfo \<and>
     map_sum id is_ObjectRead (fst (from_object_type sample_info (sample_block ''0x7::m''))) = Inr True"
    by simp
  from f 1 2 show ?thesis by simp
qed

section \<open>The effect of the classifiers on their input\<close>


lemma from_object_type_state:
  "snd (from_object_type descr inblock) =
     (case (dict_get inblock ''data'', dict_get inblock ''previousTransaction'') of
        (Inr (JDict dat), Inr prev) \<Rightarrow>
          (case dict_get inblock ''storageRebate'' of
             Inl e \<Rightarrow> dict_set inblock ''data'' (JDict (dict_set dat ''previousTransaction'' prev))
           | Inr reb \<Rightarrow> dict_set inblock ''data'' (JDict (stored dat prev reb)))
      | _ \<Rightarrow> inblock)"
  by (auto simp: from_object_type_def Let_def dict_get_set stored_def
           split: sum.splits json.splits)





section \<open>The field data and the children of structured data\<close>

lemma ebind_return [simp]: "ebind m Inr = m"
  by (cases m) simp_all

lemma copy_fields_filter:
  assumes "distinct (map fst items)" and "set (map fst acc) \<inter> set (map fst items) = {}"
  shows "copy_fields items acc = acc @ filter (\<lambda>p. fst p \<noteq> ''id'') items"
  using assms
proof (induction items arbitrary: acc)
  case Nil
  show ?case by simp
next
  case (Cons p items)
  obtain k v where p: "p = (k, v)" by (cases p)
  from Cons.prems have fresh: "k \<notin> set (map fst acc)" and rest: "distinct (map fst items)"
    and k: "k \<notin> set (map fst items)"
    and disj: "set (map fst acc) \<inter> set (map fst items) = {}"
    by (auto simp: p)
  show ?case
  proof (cases "k = ''id''")
    case True
    then show ?thesis
      using Cons.IH [OF rest disj] by (simp add: p)
  next
    case False
    have "set (map fst (acc @ [(k, v)])) \<inter> set (map fst items) = {}"
      using disj k by auto
    from Cons.IH [OF rest this] show ?thesis
      using False by (simp add: p dict_set_fresh [OF fresh])
  qed
qed

lemma SuiDataType_init_data:
  assumes "SuiDataType_init indata descr = Inr obj"
    and "getitem indata ''fields'' = Inr (JDict flds)"
    and "distinct (map fst flds)"
  shows "data obj = Inr (filter (\<lambda>p. fst p \<noteq> ''id'') flds)"
  using assms copy_fields_filter [of flds "[]"]
  by (auto simp: SuiDataType_init_def ebind_eq_Inr)

lemma construct_is_SuiDataType:
  assumes "construct t indata descr = Inr obj" and "is_SuiDataType obj"
  shows "SuiDataType_init indata descr = Inr obj"
  using assms
  by (cases t) (auto simp: SuiNftType_init_def SuiGasType_init_def ebind_eq_Inr)

text \<open>
  C8. The field data of a structured-data object, whether built by the constructor
  \<^verbatim>\<open>SuiDataType\<close> or returned by the object classifier, holds every item of the
  \<^verbatim>\<open>fields\<close> mapping of the content except the one of key \<^verbatim>\<open>id\<close>, with its value and
  in the order of the input, and nothing else.
\<close>

theorem structured_data_copies_fields:
  "(SuiDataType_init indata descr = Inr obj \<and> getitem indata ''fields'' = Inr (JDict flds) \<and>
      distinct (map fst flds) \<longrightarrow>
        data obj = Inr (filter (\<lambda>p. fst p \<noteq> ''id'') flds)) \<and>
   (fst (from_object_type descr inblock) = Inr obj \<and> is_SuiDataType obj \<and>
      getpath (JDict inblock) [''data'', ''fields''] = Inr (JDict flds) \<and>
      distinct (map fst flds) \<longrightarrow>
        data obj = Inr (filter (\<lambda>p. fst p \<noteq> ''id'') flds))"
proof -
  have "data obj = Inr (filter (\<lambda>p. fst p \<noteq> ''id'') flds)"
    if r: "fst (from_object_type descr inblock) = Inr obj" and d: "is_SuiDataType obj"
      and f: "getpath (JDict inblock) [''data'', ''fields''] = Inr (JDict flds)"
      and dist: "distinct (map fst flds)"
  proof -
    from r obtain dat prev reb t where h:
      "dict_get inblock ''data'' = Inr (JDict dat)"
      "construct t (JDict (stored dat prev reb)) descr = Inr obj"
      by (rule from_object_type_Inr)
    have "getitem (JDict (stored dat prev reb)) ''fields'' = Inr (JDict flds)"
      using f by (simp add: h(1) dict_get_stored)
    from SuiDataType_init_data [OF construct_is_SuiDataType [OF h(2) d] this dist]
    show ?thesis .
  qed
  then show ?thesis
    using SuiDataType_init_data [of indata descr obj flds] by blast
qed

theorem structured_data_copies_fields_witness:
  "\<exists>obj. fst (from_object_type sample_info (sample_block ''0x7::m::S'')) = Inr obj \<and>
     is_SuiDataType obj \<and>
     data obj = Inr [(''balance'', JNum 100), (''description'', JStr ''d''),
                     (''name'', JStr ''n''), (''url'', JStr ''u'')]"
proof -
  let ?flds = "[(''balance'', JNum 100), (''id'', JDict [(''id'', JStr ''0xdef'')]),
               (''description'', JStr ''d''), (''name'', JStr ''n''), (''url'', JStr ''u'')]"
  obtain obj where obj: "fst (from_object_type sample_info (sample_block ''0x7::m::S'')) = Inr obj"
    using sample_block_constructs by (auto simp: not_isl_iff)
  have "map_sum id is_SuiDataType (fst (from_object_type sample_info (sample_block ''0x7::m::S'')))
          = Inr True"
    by code_simp
  with obj have is_data: "is_SuiDataType obj"
    by simp
  have f: "getpath (JDict (sample_block ''0x7::m::S'')) [''data'', ''fields''] = Inr (JDict ?flds)"
    by (simp add: sample_block_def)
  have dist: "distinct (map fst ?flds)"
    by simp
  from structured_data_copies_fields [of _ sample_info obj ?flds "sample_block ''0x7::m::S''"]
    obj is_data f dist
  have "data obj = Inr (filter (\<lambda>p. fst p \<noteq> ''id'') ?flds)"
    by blast
  with obj is_data show ?thesis
    by simp
qed

lemma SuiDataType_init_children:
  "SuiDataType_init indata descr = Inr obj \<Longrightarrow> children obj = Inr []"
  by (auto simp: SuiDataType_init_def ebind_eq_Inr)

lemma add_children_append:
  assumes "children obj = Inr old"
  shows "\<exists>obj'. add_children obj cs = Inr obj' \<and> children obj' = Inr (old @ cs) \<and>
           base obj' = base obj \<and> data obj' = data obj \<and>
           data_definition obj' = data_definition obj"
  using assms
proof (induction cs arbitrary: obj old)
  case Nil
  then show ?case by simp
next
  case (Cons c cs)
  from Cons.prems obtain b dd dat where obj: "obj = SuiDataType b dd dat old"
    by (cases obj) simp_all
  let ?next = "SuiDataType b dd dat (old @ [c])"
  have "children ?next = Inr (old @ [c])"
    by simp
  from Cons.IH [OF this] show ?case
    by (auto simp: obj)
qed

text \<open>
  C9. A structured-data object has no children when it is constructed, by its constructor
  or by the object classifier. A sequence of \<^verbatim>\<open>add_child\<close> calls on a structured-data
  object always succeeds and leaves the children it had, followed by the new ones in the
  order of the calls, so that \<open>N\<close> calls on a fresh object give a list of length \<open>N\<close>;
  \<^verbatim>\<open>add_child\<close>, the one method of the class that changes an object, removes nothing and
  changes nothing but the list of children.
\<close>

theorem children_append_only:
  "(SuiDataType_init indata descr = Inr obj \<longrightarrow>
      children obj = Inr [] \<and>
      (\<exists>obj'. add_children obj cs = Inr obj' \<and> children obj' = Inr cs \<and>
         map_sum id length (children obj') = Inr (length cs))) \<and>
   (fst (from_object_type descr inblock) = Inr obj \<and> is_SuiDataType obj \<longrightarrow>
      children obj = Inr [] \<and>
      (\<exists>obj'. add_children obj cs = Inr obj' \<and> children obj' = Inr cs \<and>
         map_sum id length (children obj') = Inr (length cs))) \<and>
   (children obj = Inr old \<longrightarrow>
      (\<exists>obj'. add_children obj cs = Inr obj' \<and> children obj' = Inr (old @ cs) \<and>
         base obj' = base obj \<and> data obj' = data obj \<and>
         data_definition obj' = data_definition obj))"
proof -
  have fresh: "children obj = Inr [] \<and>
      (\<exists>obj'. add_children obj cs = Inr obj' \<and> children obj' = Inr cs \<and>
         map_sum id length (children obj') = Inr (length cs))"
    if "SuiDataType_init i d = Inr obj" for i d
  proof -
    note e = SuiDataType_init_children [OF that]
    from add_children_append [OF e, of cs] e show ?thesis
      by auto
  qed
  have classified: "\<exists>dat prev reb. SuiDataType_init (JDict (stored dat prev reb)) descr = Inr obj"
    if "fst (from_object_type descr inblock) = Inr obj" "is_SuiDataType obj"
  proof -
    from that(1) obtain dat prev reb t where
      "construct t (JDict (stored dat prev reb)) descr = Inr obj"
      by (rule from_object_type_Inr)
    from construct_is_SuiDataType [OF this that(2)] show ?thesis
      by blast
  qed
  show ?thesis
    using fresh classified add_children_append [of obj old cs] by blast
qed

theorem children_append_only_witness:
  "\<exists>obj obj'. fst (from_object_type sample_info (sample_block ''0x7::m::S'')) = Inr obj \<and>
     children obj = Inr [] \<and>
     add_children obj [obj, obj, obj] = Inr obj' \<and> children obj' = Inr [obj, obj, obj] \<and>
     map_sum id length (children obj') = Inr 3"
proof -
  obtain obj where obj: "fst (from_object_type sample_info (sample_block ''0x7::m::S'')) = Inr obj"
    using sample_block_constructs by (auto simp: not_isl_iff)
  have "map_sum id is_SuiDataType (fst (from_object_type sample_info (sample_block ''0x7::m::S'')))
          = Inr True"
    by code_simp
  with obj have is_data: "is_SuiDataType obj"
    by simp
  note T = children_append_only [of JNull sample_info obj "[obj, obj, obj]"
      "sample_block ''0x7::m::S''" "[]", THEN conjunct2, THEN conjunct1, rule_format,
      OF conjI [OF obj is_data]]
  from T obtain obj' where o: "add_children obj [obj, obj, obj] = Inr obj'"
    "children obj' = Inr [obj, obj, obj]"
    "map_sum id length (children obj') = Inr (length [obj, obj, obj])"
    by blast
  from T have e: "children obj = Inr []"
    by blast
  from o(3) have l: "map_sum id length (children obj') = Inr 3"
    by simp
  show ?thesis
    by (rule exI [of _ obj], rule exI [of _ obj']) (intro conjI obj e o(1) o(2) l)
qed

section \<open>The identifier of an object\<close>

lemma ObjectRead_init_descriptor:
  "ObjectRead_init indata d = map_sum id (\<lambda>b. b\<lparr>read_descriptor := d\<rparr>) (ObjectRead_init indata d')"
  by (auto simp: ObjectRead_init_def ebind_def split: sum.splits)

lemma construct_identifier:
  "map_sum id object_identifier (construct t indata d) =
   map_sum id object_identifier (construct t indata d')"
proof (cases "ObjectRead_init indata d'")
  case (Inl e)
  then have "ObjectRead_init indata d = Inl e"
    using ObjectRead_init_descriptor [of indata d d'] by simp
  with Inl show ?thesis
    by (cases t) (simp_all add: SuiDataType_init_def SuiNftType_init_def SuiGasType_init_def)
next
  case (Inr b)
  then have "ObjectRead_init indata d = Inr (b\<lparr>read_descriptor := d\<rparr>)"
    using ObjectRead_init_descriptor [of indata d d'] by simp
  with Inr show ?thesis
    by (cases t)
       (auto simp: SuiDataType_init_def SuiNftType_init_def SuiGasType_init_def
             object_identifier_def ebind_def split: sum.splits)
qed

lemma from_object_type_identifier:
  "map_sum id object_identifier (fst (from_object_type d inblock)) =
   map_sum id object_identifier (fst (from_object_type d' inblock))"
  using construct_identifier [of _ _ d d']
  by (auto simp: from_object_type_def Let_def object_of_classify ebind_def
           split: sum.splits)


text \<open>
  C10. The identifier of an object that the object classifier returns is the value found at
  \<^verbatim>\<open>data.fields.id.id\<close> of the content block. The descriptor plays no part in it: with
  another descriptor the call returns the same identifier, or raises the same error, and
  leaves the block in the same state; so nothing compares the identifier with the
  descriptor's \<^verbatim>\<open>objectId\<close>, and an object and its descriptor can carry different
  identifiers.
\<close>

theorem object_identifier_from_content:
  "(fst (from_object_type descr inblock) = Inr obj \<longrightarrow>
      getpath (JDict inblock) [''data'', ''fields'', ''id'', ''id''] = Inr (object_identifier obj)) \<and>
   map_sum id object_identifier (fst (from_object_type descr inblock)) =
     map_sum id object_identifier (fst (from_object_type descr' inblock)) \<and>
   snd (from_object_type descr inblock) = snd (from_object_type descr' inblock) \<and>
   (\<exists>d b obj'. fst (from_object_type d b) = Inr obj' \<and>
      object_identifier obj' \<noteq> info_identifier (descriptor obj'))"
proof -
  have 1: "getpath (JDict inblock) [''data'', ''fields'', ''id'', ''id''] = Inr (object_identifier obj)"
    if "fst (from_object_type descr inblock) = Inr obj"
    using from_object_type_base(2) [OF that] by (simp add: object_identifier_def)
  have 3: "snd (from_object_type descr inblock) = snd (from_object_type descr' inblock)"
    by (simp add: from_object_type_state)
  obtain o' where o': "fst (from_object_type sample_info (sample_block ''0x7::m::S'')) = Inr o'"
    using sample_block_constructs by (auto simp: not_isl_iff)
  have "getpath (JDict (sample_block ''0x7::m::S'')) [''data'', ''fields'', ''id'', ''id'']
          = Inr (read_identifier (base o'))"
    by (rule from_object_type_base(2) [OF o'])
  then have "object_identifier o' = JStr ''0xdef''"
    by (simp add: sample_block_def object_identifier_def)
  moreover have "info_identifier (descriptor o') = JStr ''0xabc''"
    using from_object_type_base(1) [OF o'] by (simp add: descriptor_def sample_info_def)
  ultimately have 4: "\<exists>d b obj'. fst (from_object_type d b) = Inr obj' \<and>
      object_identifier obj' \<noteq> info_identifier (descriptor obj')"
    using o' by (intro exI [of _ sample_info] exI [of _ "sample_block ''0x7::m::S''"]
        exI [of _ o']) simp
  from 1 3 4 from_object_type_identifier [of descr inblock descr'] show ?thesis
    by blast
qed

theorem object_identifier_from_content_witness:
  "\<exists>obj. fst (from_object_type sample_info (sample_block ''0x7::m::S'')) = Inr obj \<and>
     object_identifier obj = JStr ''0xdef'' \<and>
     dict_get (sample_descriptor ''0x7::m::S'') ''objectId'' = Inr (JStr ''0xabc'')"
proof -
  obtain obj where obj: "fst (from_object_type sample_info (sample_block ''0x7::m::S'')) = Inr obj"
    using sample_block_constructs by (auto simp: not_isl_iff)
  note T = object_identifier_from_content [of sample_info "sample_block ''0x7::m::S''" obj
      sample_info, THEN conjunct1, rule_format, OF obj]
  from T have "object_identifier obj = JStr ''0xdef''"
    by (simp add: sample_block_def)
  moreover have "dict_get (sample_descriptor ''0x7::m::S'') ''objectId'' = Inr (JStr ''0xabc'')"
    by (simp add: sample_descriptor_def)
  ultimately show ?thesis
    using obj by blast
qed

section \<open>Serialisation\<close>

lemma wf_dict_get:
  "wf_json (JDict d) \<Longrightarrow> dict_get d k = Inr v \<Longrightarrow> wf_json v"
  by (induction d) (auto split: if_splits)

lemma items_dict_set: "set (dict_set d k v) \<subseteq> insert (k, v) (set d)"
  by (induction d) (auto split: if_splits)

lemma wf_dict_set:
  assumes "wf_json (JDict d)" and "wf_json v"
  shows "wf_json (JDict (dict_set d k v))"
proof -
  have "wf_json (snd p)" if "p \<in> set (dict_set d k v)" for p
  proof -
    from that items_dict_set [of d k v] have "p = (k, v) \<or> p \<in> set d"
      by auto
    with assms show ?thesis
      by (auto simp: list_all_iff)
  qed
  then show ?thesis
    using assms(1) distinct_dict_set [of d k v] by (simp add: list_all_iff)
qed

lemma from_object_descriptor_raw:
  assumes "fst (from_object_descriptor indata) = Inr d"
  shows "info_type_raw d = indata"
  using assms
  by (auto simp: from_object_descriptor_def descriptor_of_classify ObjectInfo_init_def ebind_eq_Inr)

lemma from_object_type_raw:
  assumes "fst (from_object_type descr inblock) = Inr obj"
  obtains dat prev reb where
    "dict_get inblock ''data'' = Inr (JDict dat)"
    "dict_get inblock ''previousTransaction'' = Inr prev"
    "dict_get inblock ''storageRebate'' = Inr reb"
    "read_type_raw (base obj) = JDict (stored dat prev reb)"
proof -
  from assms obtain dat prev reb ty t where h:
    "dict_get inblock ''data'' = Inr (JDict dat)"
    "dict_get inblock ''previousTransaction'' = Inr prev"
    "dict_get inblock ''storageRebate'' = Inr reb"
    "dict_get dat ''type'' = Inr ty"
    "classify ty = Inr t"
    "construct t (JDict (stored dat prev reb)) descr = Inr obj"
    by (rule from_object_type_Inr)
  from ObjectRead_init_Inr(2) [OF construct_base [OF h(6)]] h(1-3) that show thesis
    by blast
qed

lemma add_child_raw: "add_child obj c = Inr obj' \<Longrightarrow> base obj' = base obj"
  by (cases obj) auto

text \<open>
  C6. Let the library parse what it serialised back to the same value. Then the string that
  \<^verbatim>\<open>json()\<close> returns for a descriptor parses to the whole mapping the descriptor was built
  from, and the one for an object to the mapping the object retained: the \<^verbatim>\<open>data\<close>
  mapping of the block with the block's \<^verbatim>\<open>previousTransaction\<close> and \<^verbatim>\<open>storageRebate\<close>
  stored in it. The string is the serialisation of that mapping itself, not of the fields
  derived from it; adding a child does not change it.
\<close>

theorem json_round_trip:
  assumes "\<forall>v. wf_json v \<longrightarrow> loads (dumps v) = v"
  shows "(fst (from_object_descriptor indata) = Inr d \<and> wf_json (JDict indata) \<longrightarrow>
            descriptor_json dumps d = dumps (JDict indata) \<and>
            loads (descriptor_json dumps d) = JDict indata) \<and>
         (fst (from_object_type descr inblock) = Inr obj \<and> wf_json (JDict inblock) \<longrightarrow>
            (\<exists>dat prev reb.
               dict_get inblock ''data'' = Inr (JDict dat) \<and>
               dict_get inblock ''previousTransaction'' = Inr prev \<and>
               dict_get inblock ''storageRebate'' = Inr reb \<and>
               object_json dumps obj = dumps (JDict (stored dat prev reb)) \<and>
               loads (object_json dumps obj) = JDict (stored dat prev reb))) \<and>
         (add_child obj c = Inr obj' \<longrightarrow> object_json dumps obj' = object_json dumps obj)"
proof -
  have D: "descriptor_json dumps d = dumps (JDict indata) \<and>
           loads (descriptor_json dumps d) = JDict indata"
    if "fst (from_object_descriptor indata) = Inr d" "wf_json (JDict indata)"
    using from_object_descriptor_raw [OF that(1)] that(2) assms
    by (simp add: descriptor_json_def)
  have O: "\<exists>dat prev reb.
               dict_get inblock ''data'' = Inr (JDict dat) \<and>
               dict_get inblock ''previousTransaction'' = Inr prev \<and>
               dict_get inblock ''storageRebate'' = Inr reb \<and>
               object_json dumps obj = dumps (JDict (stored dat prev reb)) \<and>
               loads (object_json dumps obj) = JDict (stored dat prev reb)"
    if r: "fst (from_object_type descr inblock) = Inr obj" and wf: "wf_json (JDict inblock)"
  proof -
    from r obtain dat prev reb where h:
      "dict_get inblock ''data'' = Inr (JDict dat)"
      "dict_get inblock ''previousTransaction'' = Inr prev"
      "dict_get inblock ''storageRebate'' = Inr reb"
      "read_type_raw (base obj) = JDict (stored dat prev reb)"
      by (rule from_object_type_raw)
    have "wf_json (JDict (stored dat prev reb))"
      unfolding stored_def
      by (intro wf_dict_set wf_dict_get [OF wf h(1)] wf_dict_get [OF wf h(2)]
          wf_dict_get [OF wf h(3)])
    with assms h show ?thesis
      by (simp add: object_json_def)
  qed
  have C: "object_json dumps obj' = object_json dumps obj" if "add_child obj c = Inr obj'"
    using add_child_raw [OF that] by (simp add: object_json_def)
  from D O C show ?thesis
    by blast
qed

theorem json_round_trip_witness:
  "(\<exists>d. fst (from_object_descriptor (sample_descriptor ''0x7::m::S'')) = Inr d \<and>
      unary_loads (descriptor_json unary_dumps d) = JDict (sample_descriptor ''0x7::m::S'')) \<and>
   (\<exists>obj. fst (from_object_type sample_info (sample_block ''0x7::m::S'')) = Inr obj \<and>
      unary_loads (object_json unary_dumps obj) =
        JDict
          [(''dataType'', JStr ''moveObject''), (''type'', JStr ''0x7::m::S''),
           (''has_public_transfer'', JBool True),
           (''fields'', JDict
              [(''balance'', JNum 100), (''id'', JDict [(''id'', JStr ''0xdef'')]),
               (''description'', JStr ''d''), (''name'', JStr ''n''), (''url'', JStr ''u'')]),
           (''previousTransaction'', JStr ''tx2''), (''storageRebate'', JNum 15)])"
proof -
  have lib: "\<forall>v. wf_json v \<longrightarrow> unary_loads (unary_dumps v) = v"
    by (simp add: unary_loads_def unary_dumps_def)
  have "\<not> isl (fst (from_object_descriptor (sample_descriptor ''0x7::m::S'')))"
    by code_simp
  then obtain d where d: "fst (from_object_descriptor (sample_descriptor ''0x7::m::S'')) = Inr d"
    by (auto simp: not_isl_iff)
  obtain obj where obj: "fst (from_object_type sample_info (sample_block ''0x7::m::S'')) = Inr obj"
    using sample_block_constructs by (auto simp: not_isl_iff)
  have wd: "wf_json (JDict (sample_descriptor ''0x7::m::S''))"
    by (simp add: sample_descriptor_def)
  have wb: "wf_json (JDict (sample_block ''0x7::m::S''))"
    by (simp add: sample_block_def)
  note T = json_round_trip [OF lib, of "sample_descriptor ''0x7::m::S''" d sample_info
      "sample_block ''0x7::m::S''" obj]
  from T d wd have 1: "unary_loads (descriptor_json unary_dumps d) = JDict (sample_descriptor ''0x7::m::S'')"
    by blast
  from T obj wb obtain dat prev reb where h:
    "dict_get (sample_block ''0x7::m::S'') ''data'' = Inr (JDict dat)"
    "dict_get (sample_block ''0x7::m::S'') ''previousTransaction'' = Inr prev"
    "dict_get (sample_block ''0x7::m::S'') ''storageRebate'' = Inr reb"
    "unary_loads (object_json unary_dumps obj) = JDict (stored dat prev reb)"
    by blast
  from h have 2: "unary_loads (object_json unary_dumps obj) =
        JDict
          [(''dataType'', JStr ''moveObject''), (''type'', JStr ''0x7::m::S''),
           (''has_public_transfer'', JBool True),
           (''fields'', JDict
              [(''balance'', JNum 100), (''id'', JDict [(''id'', JStr ''0xdef'')]),
               (''description'', JStr ''d''), (''name'', JStr ''n''), (''url'', JStr ''u'')]),
           (''previousTransaction'', JStr ''tx2''), (''storageRebate'', JNum 15)]"
    by (auto simp: sample_block_def stored_def)
  from d 1 obj 2 show ?thesis
    by blast
qed

end
